theory Spec2Isabelle
  imports Main "HOL-Library.AList" "HOL-Library.Multiset"
begin

section \<open>The dual-bucket blob storage service\<close>

text \<open>
  A shallow embedding of \<^verbatim>\<open>BlobStorageService\<close> (the class that routes every file
  operation to the \<^emph>\<open>working\<close> and the \<^emph>\<open>stable\<close> bucket of an S3-compatible store).
  Each method modelled becomes a function of the same name. A promise that is
  rejected (a \<^verbatim>\<open>throw\<close>, or an error of the store client that is not caught) is the
  value \<open>Inl e\<close>; a promise that is fulfilled with \<open>v\<close> is \<open>Inr v\<close>.
\<close>

subsection \<open>JavaScript objects used as dictionaries\<close>

text \<open>
  A \<^verbatim>\<open>Record<string, string>\<close> is an association list in property order. The
  assignment \<^verbatim>\<open>o[k] = v\<close> is \<^const>\<open>AList.update\<close>: an existing property keeps its
  position and takes the new value, a new property goes to the end. (JavaScript moves
  keys that are canonical array indices such as \<^verbatim>\<open>"0"\<close> to the front; the keys this
  service writes, \<^verbatim>\<open>"tag-0"\<close>, \<^verbatim>\<open>"tag-1"\<close>, ..., are not of that form, and of
  metadata only the value under a key is used below, not the order.)
\<close>

type_synonym js_record = "(string \<times> string) list"

text \<open>The spread \<^verbatim>\<open>{ ...base, ...extra }\<close>: the properties of \<open>extra\<close> are assigned
  one after the other, in their order, to a copy of \<open>base\<close>.\<close>

definition spread :: "js_record \<Rightarrow> js_record \<Rightarrow> js_record" where
  "spread base extra = fold (\<lambda>(k, v) obj. AList.update k v obj) extra base"

text \<open>\<^verbatim>\<open>`${index}`\<close> for an array index: the decimal numeral without leading zeros.\<close>

definition digit :: "nat \<Rightarrow> char" where
  "digit d = ''0123456789'' ! d"

fun decimal :: "nat \<Rightarrow> string" where
  "decimal n = (if n < 10 then [digit n] else decimal (n div 10) @ [digit (n mod 10)])"

declare decimal.simps [simp del]

subsection \<open>Tags: the list of tag names and the flat tag mapping of the store\<close>

text \<open>
  The loop shared by \<^verbatim>\<open>uploadFileAsync\<close> and \<^verbatim>\<open>setFileTagsAsync\<close>:
  \<^verbatim>\<open>tags.forEach((tag, index) => { tagMap[`tag-${index}`] = tag; })\<close>
  starting from the empty object.
\<close>

definition tagKey :: "nat \<Rightarrow> string" where
  "tagKey index = ''tag-'' @ decimal index"

definition encodeTags :: "string list \<Rightarrow> js_record" where
  "encodeTags tags = fold (\<lambda>(index, tag) tagMap. AList.update (tagKey index) tag tagMap) (enumerate 0 tags) []"

text \<open>
  The expression of \<^verbatim>\<open>getFileTagsAsync\<close> applied to the answer of the store:
  \<^verbatim>\<open>Object.values(result).filter(value => typeof value === 'string' && value.length > 0).map(String)\<close>.
  Every value of a \<open>js_record\<close> is a string, so the \<^verbatim>\<open>typeof\<close> test holds.
\<close>

definition decodeTags :: "js_record \<Rightarrow> string list" where
  "decodeTags result = map (\<lambda>v. v) (filter (\<lambda>value. length value > 0) (map snd result))"

subsection \<open>Roles, callers and configuration\<close>

text \<open>\<^verbatim>\<open>enum UserRole { Viewer = 1, Contributor = 2, Admin = 3 }\<close>; the service
  compares the numeric value of the role.\<close>

datatype UserRole = Viewer | Contributor | Admin

fun role_value :: "UserRole \<Rightarrow> int" where
  "role_value Viewer = 1"
| "role_value Contributor = 2"
| "role_value Admin = 3"

record UserContext =
  userId :: string
  username :: string
  role :: UserRole

record MinioConfig =
  endpoint :: string
  accessKey :: string
  secretKey :: string
  bucketName :: string
  useSSL :: bool

text \<open>The fields of the class. The field \<^verbatim>\<open>client\<close> is the connection to the object
  store; the state of the store is passed to every method explicitly (see below).\<close>

record BlobStorageService =
  workingBucket :: string
  stableBucket :: string

definition constructor :: "MinioConfig \<Rightarrow> BlobStorageService" where
  "constructor config =
     \<lparr>workingBucket = bucketName config @ ''-working'',
      stableBucket = bucketName config @ ''-stable''\<rparr>"

definition getBucketName :: "BlobStorageService \<Rightarrow> UserContext \<Rightarrow> string" where
  "getBucketName this userContext =
     (if role_value (role userContext) \<le> 2 then workingBucket this else stableBucket this)"

text \<open>
  The list every read method builds before its loop:
  \<^verbatim>\<open>const buckets = [this.getBucketName(userContext)];
  if (userContext.role === 3) { buckets.push(userContext.role <= 2 ? this.stableBucket : this.workingBucket); }\<close>
\<close>

definition readBuckets :: "BlobStorageService \<Rightarrow> UserContext \<Rightarrow> string list" where
  "readBuckets this userContext =
     [getBucketName this userContext] @
     (if role_value (role userContext) = 3
      then [if role_value (role userContext) \<le> 2 then stableBucket this else workingBucket this]
      else [])"

text \<open>\<^verbatim>\<open>getFileTagsAsync\<close> builds its list with \<^verbatim>\<open>buckets.push(this.workingBucket)\<close>.\<close>

definition tagBuckets :: "BlobStorageService \<Rightarrow> UserContext \<Rightarrow> string list" where
  "tagBuckets this userContext =
     [getBucketName this userContext] @
     (if role_value (role userContext) = 3 then [workingBucket this] else [])"

subsection \<open>The object store behind the client\<close>

text \<open>
  The store client is a library outside the repository. It is modelled by its contract:
  a store holds, for every bucket, the entries of the bucket in the order in which the
  store lists them. An entry is what a listing reports about it (a \<open>BucketItem\<close>, whose
  fields are all optional in the client's typing), its bytes, its metadata and its tag
  mapping, which the store keeps in the order it was written. Several entries of one
  name are the versions of one object; the first of them is the one an unversioned read
  returns. A time is the number of milliseconds since the epoch; an ISO-8601 time
  string (\<^verbatim>\<open>toISOString()\<close>) is represented by the instant it denotes, which
  \<^verbatim>\<open>new Date(s).getTime()\<close> gives back.

  A call fails either because the object is not there (\<open>NoSuchKey\<close>) or because the
  store rejects the call for a reason of its own (unreachable, access denied, ...):
  \<open>rejects\<close> says for which calls it does so (\<open>BackendFailure\<close>). \<open>Error m\<close> is
  \<^verbatim>\<open>new Error(m)\<close> thrown by the service itself.
\<close>

datatype error = NoSuchKey | BackendFailure | Error string

record BucketItem =
  obj_name :: "string option"
  obj_size :: "nat option"
  obj_etag :: "string option"
  obj_lastModified :: "int option"
  obj_versionId :: "string option"
  obj_isLatest :: "bool option"

record StoredObject =
  item :: BucketItem
  body :: string
  metaData :: js_record
  tagging :: js_record

datatype call =
    PutObject string string
  | GetObject string string "string option"
  | StatObject string string
  | RemoveObject string string
  | ListObjects string string
  | GetObjectTagging string string
  | SetObjectTagging string string

record store =
  buckets :: "string \<Rightarrow> StoredObject list"
  rejects :: "call \<Rightarrow> bool"

definition named :: "string \<Rightarrow> StoredObject \<Rightarrow> bool" where
  "named k e \<longleftrightarrow> obj_name (item e) = Some k"

definition setBucket :: "store \<Rightarrow> string \<Rightarrow> StoredObject list \<Rightarrow> store" where
  "setBucket st bucket es = st\<lparr>buckets := (buckets st)(bucket := es)\<rparr>"

definition getObject :: "store \<Rightarrow> string \<Rightarrow> string \<Rightarrow> string option \<Rightarrow> error + string" where
  "getObject st bucket k vid =
     (if rejects st (GetObject bucket k vid) then Inl BackendFailure
      else case find (\<lambda>e. named k e \<and> (vid = None \<or> obj_versionId (item e) = vid)) (buckets st bucket) of
             None \<Rightarrow> Inl NoSuchKey
           | Some e \<Rightarrow> Inr (body e))"

text \<open>Of the answer of \<^verbatim>\<open>statObject\<close> the methods modelled here read
  \<^verbatim>\<open>stat.metaData\<close> only.\<close>

definition statObject :: "store \<Rightarrow> string \<Rightarrow> string \<Rightarrow> error + js_record" where
  "statObject st bucket k =
     (if rejects st (StatObject bucket k) then Inl BackendFailure
      else case find (named k) (buckets st bucket) of
             None \<Rightarrow> Inl NoSuchKey
           | Some e \<Rightarrow> Inr (metaData e))"

text \<open>Removing a name that is not there succeeds, as it does in S3.\<close>

definition removeObject :: "store \<Rightarrow> string \<Rightarrow> string \<Rightarrow> (error + unit) \<times> store" where
  "removeObject st bucket k =
     (if rejects st (RemoveObject bucket k) then (Inl BackendFailure, st)
      else (Inr (), setBucket st bucket (filter (\<lambda>e. \<not> named k e) (buckets st bucket))))"

text \<open>A put replaces what the bucket held under the name. The attributes the store
  would assign by itself (time, entity tag, version) are left undefined.\<close>

definition putObject :: "store \<Rightarrow> string \<Rightarrow> string \<Rightarrow> string \<Rightarrow> js_record \<Rightarrow> (error + unit) \<times> store" where
  "putObject st bucket k stream md =
     (if rejects st (PutObject bucket k) then (Inl BackendFailure, st)
      else (Inr (), setBucket st bucket
              (filter (\<lambda>e. \<not> named k e) (buckets st bucket) @
               [\<lparr>item = \<lparr>obj_name = Some k, obj_size = Some (length stream), obj_etag = None,
                         obj_lastModified = None, obj_versionId = None, obj_isLatest = None\<rparr>,
                 body = stream, metaData = md, tagging = []\<rparr>])))"

text \<open>A listing either fails as a whole or delivers every entry whose name starts with
  the prefix, in the order of the store.\<close>

definition hasPrefix :: "string \<Rightarrow> StoredObject \<Rightarrow> bool" where
  "hasPrefix p e = (case obj_name (item e) of None \<Rightarrow> False | Some n \<Rightarrow> take (length p) n = p)"

definition listObjects :: "store \<Rightarrow> string \<Rightarrow> string \<Rightarrow> error + BucketItem list" where
  "listObjects st bucket p =
     (if rejects st (ListObjects bucket p) then Inl BackendFailure
      else Inr (map item (filter (hasPrefix p) (buckets st bucket))))"

definition getObjectTagging :: "store \<Rightarrow> string \<Rightarrow> string \<Rightarrow> error + js_record" where
  "getObjectTagging st bucket k =
     (if rejects st (GetObjectTagging bucket k) then Inl BackendFailure
      else case find (named k) (buckets st bucket) of
             None \<Rightarrow> Inl NoSuchKey
           | Some e \<Rightarrow> Inr (tagging e))"

fun retag :: "string \<Rightarrow> js_record \<Rightarrow> StoredObject list \<Rightarrow> StoredObject list" where
  "retag k tags [] = []"
| "retag k tags (e # es) = (if named k e then e\<lparr>tagging := tags\<rparr> # es else e # retag k tags es)"

definition setObjectTagging :: "store \<Rightarrow> string \<Rightarrow> string \<Rightarrow> js_record \<Rightarrow> (error + unit) \<times> store" where
  "setObjectTagging st bucket k tags =
     (if rejects st (SetObjectTagging bucket k) then (Inl BackendFailure, st)
      else case find (named k) (buckets st bucket) of
             None \<Rightarrow> (Inl NoSuchKey, st)
           | Some e \<Rightarrow> (Inr (), setBucket st bucket (retag k tags (buckets st bucket))))"

subsection \<open>The methods of the service\<close>

text \<open>
  A method that only reads takes the store and returns its result; a method that writes
  returns its result and the store it leaves. \<open>now\<close> is the reading of the clock
  (\<^verbatim>\<open>new Date()\<close>) during the call: the ISO text itself where it is stored as
  text (\<^verbatim>\<open>uploadFileAsync\<close>), the instant where it is compared as a time.
\<close>

definition uploadMetaData :: "UserContext \<Rightarrow> string \<Rightarrow> string option \<Rightarrow> js_record option \<Rightarrow> js_record" where
  "uploadMetaData userContext now contentType metadata =
     spread
       [(''Content-Type'', (case contentType of
                              None \<Rightarrow> ''application/octet-stream''
                            | Some c \<Rightarrow> if c = [] then ''application/octet-stream'' else c)),
        (''created-by'', username userContext),
        (''created-at'', now)]
       (case metadata of None \<Rightarrow> [] | Some m \<Rightarrow> m)"

definition uploadFileAsync ::
  "BlobStorageService \<Rightarrow> string \<Rightarrow> string \<Rightarrow> string \<Rightarrow> UserContext \<Rightarrow> string option \<Rightarrow>
   string list option \<Rightarrow> js_record option \<Rightarrow> store \<Rightarrow> (error + string) \<times> store" where
  "uploadFileAsync this now fileName stream userContext contentType tags metadata st =
     (let bucketName = getBucketName this userContext;
          metaData = uploadMetaData userContext now contentType metadata
      in case putObject st bucketName fileName stream metaData of
           (Inl e, st') \<Rightarrow> (Inl e, st')
         | (Inr _, st') \<Rightarrow>
             (case tags of
                None \<Rightarrow> (Inr fileName, st')
              | Some ts \<Rightarrow>
                  if length ts > 0
                  then (case setObjectTagging st' bucketName fileName (encodeTags ts) of
                          (Inl e, st'') \<Rightarrow> (Inl e, st'')
                        | (Inr _, st'') \<Rightarrow> (Inr fileName, st''))
                  else (Inr fileName, st')))"

fun downloadLoop :: "store \<Rightarrow> string \<Rightarrow> string list \<Rightarrow> error + string" where
  "downloadLoop st fileName [] = Inl (Error (''File '' @ fileName @ '' not found''))"
| "downloadLoop st fileName (bucket # rest) =
     (case getObject st bucket fileName None of
        Inr content \<Rightarrow> Inr content
      | Inl _ \<Rightarrow> downloadLoop st fileName rest)"

definition downloadFileAsync :: "BlobStorageService \<Rightarrow> string \<Rightarrow> UserContext \<Rightarrow> store \<Rightarrow> error + string" where
  "downloadFileAsync this fileName userContext st = downloadLoop st fileName (readBuckets this userContext)"

fun downloadVersionLoop :: "store \<Rightarrow> string \<Rightarrow> string \<Rightarrow> string list \<Rightarrow> error + string" where
  "downloadVersionLoop st fileName versionId [] =
     Inl (Error (''File '' @ fileName @ '' version '' @ versionId @ '' not found''))"
| "downloadVersionLoop st fileName versionId (bucket # rest) =
     (case getObject st bucket fileName (Some versionId) of
        Inr content \<Rightarrow> Inr content
      | Inl _ \<Rightarrow> downloadVersionLoop st fileName versionId rest)"

definition downloadFileVersionAsync ::
  "BlobStorageService \<Rightarrow> string \<Rightarrow> string \<Rightarrow> UserContext \<Rightarrow> store \<Rightarrow> error + string" where
  "downloadFileVersionAsync this fileName versionId userContext st =
     downloadVersionLoop st fileName versionId (readBuckets this userContext)"

fun existsLoop :: "store \<Rightarrow> string \<Rightarrow> string list \<Rightarrow> error + bool" where
  "existsLoop st fileName [] = Inr False"
| "existsLoop st fileName (bucket # rest) =
     (case statObject st bucket fileName of
        Inr _ \<Rightarrow> Inr True
      | Inl _ \<Rightarrow> existsLoop st fileName rest)"

definition fileExistsAsync :: "BlobStorageService \<Rightarrow> string \<Rightarrow> UserContext \<Rightarrow> store \<Rightarrow> error + bool" where
  "fileExistsAsync this fileName userContext st = existsLoop st fileName (readBuckets this userContext)"

fun deleteLoop :: "store \<Rightarrow> string \<Rightarrow> string list \<Rightarrow> bool \<Rightarrow> bool \<times> store" where
  "deleteLoop st fileName [] deleted = (deleted, st)"
| "deleteLoop st fileName (bucket # rest) deleted =
     (case removeObject st bucket fileName of
        (Inr _, st') \<Rightarrow> deleteLoop st' fileName rest True
      | (Inl _, st') \<Rightarrow> deleteLoop st' fileName rest deleted)"

definition deleteFileAsync ::
  "BlobStorageService \<Rightarrow> string \<Rightarrow> UserContext \<Rightarrow> store \<Rightarrow> (error + bool) \<times> store" where
  "deleteFileAsync this fileName userContext st =
     (case deleteLoop st fileName [workingBucket this, stableBucket this] False of
        (deleted, st') \<Rightarrow> (Inr deleted, st'))"

text \<open>\<^verbatim>\<open>if (obj.name && !files.includes(obj.name)) files.push(obj.name)\<close>: an
  undefined or empty name is falsy.\<close>

definition pushName :: "BucketItem \<Rightarrow> string list \<Rightarrow> string list" where
  "pushName obj files =
     (case obj_name obj of
        None \<Rightarrow> files
      | Some n \<Rightarrow> if n \<noteq> [] \<and> n \<notin> set files then files @ [n] else files)"

fun listLoop :: "store \<Rightarrow> string list \<Rightarrow> string list \<Rightarrow> string list" where
  "listLoop st [] files = files"
| "listLoop st (bucket # rest) files =
     (case listObjects st bucket [] of
        Inr objs \<Rightarrow> listLoop st rest (fold pushName objs files)
      | Inl _ \<Rightarrow> listLoop st rest files)"

definition listFilesAsync :: "BlobStorageService \<Rightarrow> UserContext \<Rightarrow> store \<Rightarrow> error + string list" where
  "listFilesAsync this userContext st = Inr (listLoop st (readBuckets this userContext) [])"

record BlobMetadata =
  fileName_m :: string
  category :: "string option"
  created :: "string option"
  updated :: "string option"
  reviewed :: "string option"
  tested :: "string option"
  createdBy :: "string option"
  size_m :: nat
  lastModified_m :: int
  contentType_m :: "string option"
  etag_m :: string
  versionId_m :: "string option"
  isDir :: bool
  isLatest_m :: bool

definition pushMetadata :: "store \<Rightarrow> int \<Rightarrow> string \<Rightarrow> BucketItem \<Rightarrow> BlobMetadata list \<Rightarrow> BlobMetadata list" where
  "pushMetadata st now bucket obj files =
     (case obj_name obj of
        None \<Rightarrow> files
      | Some n \<Rightarrow>
          if n = [] then files
          else (case statObject st bucket n of
                  Inl _ \<Rightarrow> files
                | Inr md \<Rightarrow>
                    files @
                    [\<lparr>fileName_m = n,
                      category = map_of md ''category'',
                      created = map_of md ''created'',
                      updated = map_of md ''updated'',
                      reviewed = map_of md ''reviewed'',
                      tested = map_of md ''tested'',
                      createdBy = map_of md ''created-by'',
                      size_m = (case obj_size obj of None \<Rightarrow> 0 | Some s \<Rightarrow> s),
                      lastModified_m = (case obj_lastModified obj of None \<Rightarrow> now | Some t \<Rightarrow> t),
                      contentType_m = map_of md ''content-type'',
                      etag_m = (case obj_etag obj of None \<Rightarrow> [] | Some e \<Rightarrow> e),
                      versionId_m = None,
                      isDir = False,
                      isLatest_m = True\<rparr>]))"

fun listMetadataLoop :: "store \<Rightarrow> int \<Rightarrow> string list \<Rightarrow> BlobMetadata list \<Rightarrow> BlobMetadata list" where
  "listMetadataLoop st now [] files = files"
| "listMetadataLoop st now (bucket # rest) files =
     (case listObjects st bucket [] of
        Inr objs \<Rightarrow> listMetadataLoop st now rest (fold (pushMetadata st now bucket) objs files)
      | Inl _ \<Rightarrow> listMetadataLoop st now rest files)"

definition listFilesWithMetadataAsync ::
  "BlobStorageService \<Rightarrow> int \<Rightarrow> UserContext \<Rightarrow> store \<Rightarrow> error + BlobMetadata list" where
  "listFilesWithMetadataAsync this now userContext st =
     Inr (listMetadataLoop st now (readBuckets this userContext) [])"

text \<open>The answer of the store is always a mapping here, so the test
  \<^verbatim>\<open>result && typeof result === 'object'\<close> holds.\<close>

fun tagsLoop :: "store \<Rightarrow> string \<Rightarrow> string list \<Rightarrow> error + string list" where
  "tagsLoop st fileName [] = Inr []"
| "tagsLoop st fileName (bucket # rest) =
     (case getObjectTagging st bucket fileName of
        Inr result \<Rightarrow> Inr (decodeTags result)
      | Inl _ \<Rightarrow> tagsLoop st fileName rest)"

definition getFileTagsAsync :: "BlobStorageService \<Rightarrow> string \<Rightarrow> UserContext \<Rightarrow> store \<Rightarrow> error + string list" where
  "getFileTagsAsync this fileName userContext st = tagsLoop st fileName (tagBuckets this userContext)"

definition setFileTagsAsync ::
  "BlobStorageService \<Rightarrow> string \<Rightarrow> string list \<Rightarrow> UserContext \<Rightarrow> store \<Rightarrow> (error + bool) \<times> store" where
  "setFileTagsAsync this fileName tags userContext st =
     (let bucketName = getBucketName this userContext
      in case setObjectTagging st bucketName fileName (encodeTags tags) of
           (Inr _, st') \<Rightarrow> (Inr True, st')
         | (Inl _, st') \<Rightarrow> (Inr False, st'))"

definition deleteFileTagsAsync ::
  "BlobStorageService \<Rightarrow> string \<Rightarrow> UserContext \<Rightarrow> store \<Rightarrow> (error + bool) \<times> store" where
  "deleteFileTagsAsync this fileName userContext st =
     (let bucketName = getBucketName this userContext
      in case setObjectTagging st bucketName fileName [] of
           (Inr _, st') \<Rightarrow> (Inr True, st')
         | (Inl _, st') \<Rightarrow> (Inr False, st'))"

record FileVersion =
  versionId :: string
  lastModified :: int
  size_v :: nat
  etag :: string
  isLatest :: bool

definition toVersion :: "int \<Rightarrow> BucketItem \<Rightarrow> FileVersion" where
  "toVersion now obj =
     \<lparr>versionId = (case obj_versionId obj of None \<Rightarrow> ''null'' | Some v \<Rightarrow> if v = [] then ''null'' else v),
      lastModified = (case obj_lastModified obj of None \<Rightarrow> now | Some t \<Rightarrow> t),
      size_v = (case obj_size obj of None \<Rightarrow> 0 | Some s \<Rightarrow> s),
      etag = (case obj_etag obj of None \<Rightarrow> [] | Some e \<Rightarrow> e),
      isLatest = (case obj_isLatest obj of None \<Rightarrow> False | Some b \<Rightarrow> b)\<rparr>"

text \<open>\<^verbatim>\<open>versions.sort((a, b) => new Date(b.lastModified).getTime() - new Date(a.lastModified).getTime())\<close>:
  the stable sort of JavaScript with the later time first.\<close>

definition sortVersions :: "FileVersion list \<Rightarrow> FileVersion list" where
  "sortVersions versions = sort_key (\<lambda>v. - lastModified v) versions"

definition collectVersions :: "int \<Rightarrow> string \<Rightarrow> BucketItem list \<Rightarrow> FileVersion list" where
  "collectVersions now fileName objs = map (toVersion now) (filter (\<lambda>obj. obj_name obj = Some fileName) objs)"

fun versionsLoop :: "store \<Rightarrow> int \<Rightarrow> string \<Rightarrow> string list \<Rightarrow> error + FileVersion list" where
  "versionsLoop st now fileName [] = Inr []"
| "versionsLoop st now fileName (bucket # rest) =
     (case listObjects st bucket fileName of
        Inl _ \<Rightarrow> versionsLoop st now fileName rest
      | Inr objs \<Rightarrow>
          (let versions = collectVersions now fileName objs
           in if length versions > 0 then Inr (sortVersions versions)
              else versionsLoop st now fileName rest))"

definition listFileVersionsAsync ::
  "BlobStorageService \<Rightarrow> int \<Rightarrow> string \<Rightarrow> UserContext \<Rightarrow> store \<Rightarrow> error + FileVersion list" where
  "listFileVersionsAsync this now fileName userContext st =
     versionsLoop st now fileName (readBuckets this userContext)"

subsection \<open>A small deployment used for concrete runs\<close>

definition exampleService :: BlobStorageService where
  "exampleService = constructor \<lparr>endpoint = ''localhost:9000'', accessKey = ''minio'',
     secretKey = ''secret'', bucketName = ''calcpad'', useSSL = False\<rparr>"

definition viewer :: UserContext where
  "viewer = \<lparr>userId = ''1'', username = ''vera'', role = Viewer\<rparr>"

definition contributor :: UserContext where
  "contributor = \<lparr>userId = ''2'', username = ''carl'', role = Contributor\<rparr>"

definition admin :: UserContext where
  "admin = \<lparr>userId = ''3'', username = ''ada'', role = Admin\<rparr>"

definition entry :: "string \<Rightarrow> string option \<Rightarrow> int \<Rightarrow> string \<Rightarrow> js_record \<Rightarrow> StoredObject" where
  "entry n vid t content tags =
     \<lparr>item = \<lparr>obj_name = Some n, obj_size = Some (length content), obj_etag = Some ''e'',
               obj_lastModified = Some t, obj_versionId = vid, obj_isLatest = Some True\<rparr>,
      body = content, metaData = [], tagging = tags\<rparr>"

definition storeOf :: "StoredObject list \<Rightarrow> StoredObject list \<Rightarrow> (call \<Rightarrow> bool) \<Rightarrow> store" where
  "storeOf ws ss r =
     \<lparr>buckets = (\<lambda>b. if b = ''calcpad-working'' then ws
                     else if b = ''calcpad-stable'' then ss else []),
      rejects = r\<rparr>"

text \<open>A working bucket with three versions of one file, listed out of order, and a
  file whose name extends the name of the first.\<close>

definition threeVersions :: "StoredObject list" where
  "threeVersions =
     [entry ''report.pdf'' (Some ''v1'') 10 ''a'' [],
      entry ''report.pdf.bak'' None 50 ''b'' [],
      entry ''report.pdf'' (Some ''v3'') 30 ''ccc'' [],
      entry ''report.pdf'' (Some ''v2'') 20 ''bb'' []]"

text \<open>The bucket a call of the client addresses.\<close>

definition callBucket :: "call \<Rightarrow> string" where
  "callBucket c = (case c of
      PutObject b _ \<Rightarrow> b | GetObject b _ _ \<Rightarrow> b | StatObject b _ \<Rightarrow> b | RemoveObject b _ \<Rightarrow> b
    | ListObjects b _ \<Rightarrow> b | GetObjectTagging b _ \<Rightarrow> b | SetObjectTagging b _ \<Rightarrow> b)"

text \<open>A fault pattern for the example deployment: the stable bucket cannot be reached.\<close>

definition stableDown :: "call \<Rightarrow> bool" where
  "stableDown c \<longleftrightarrow> callBucket c = ''calcpad-stable''"

text \<open>No call is rejected.\<close>

definition noFaults :: "call \<Rightarrow> bool" where
  "noFaults c \<longleftrightarrow> False"

text \<open>Only the removal from the stable bucket is rejected (a write-protected bucket).\<close>

definition stableLocked :: "call \<Rightarrow> bool" where
  "stableLocked c \<longleftrightarrow> (case c of RemoveObject b _ \<Rightarrow> b = ''calcpad-stable'' | _ \<Rightarrow> False)"

text \<open>Every call is rejected; only the tag writes are rejected.\<close>

definition allDown :: "call \<Rightarrow> bool" where
  "allDown c \<longleftrightarrow> True"

definition tagsDown :: "call \<Rightarrow> bool" where
  "tagsDown c \<longleftrightarrow> (case c of SetObjectTagging _ _ \<Rightarrow> True | _ \<Rightarrow> False)"

text \<open>A store whose only file is a released one in the stable bucket.\<close>

definition releasedOnly :: store where
  "releasedOnly = storeOf [] [entry ''released.pdf'' None 3 ''released'' [(''tag-0'', ''Old'')]] noFaults"

subsection \<open>Notions used to state the properties\<close>

text \<open>The versions of a name that one bucket contributes to \<^verbatim>\<open>listFileVersionsAsync\<close>:
  none when the listing fails.\<close>

definition versionsIn :: "store \<Rightarrow> int \<Rightarrow> string \<Rightarrow> string \<Rightarrow> FileVersion list" where
  "versionsIn st now fileName bucket =
     (case listObjects st bucket fileName of Inl _ \<Rightarrow> [] | Inr objs \<Rightarrow> collectVersions now fileName objs)"

definition newestFirst :: "FileVersion list \<Rightarrow> bool" where
  "newestFirst vs \<longleftrightarrow> sorted_wrt (\<lambda>a b. lastModified a \<ge> lastModified b) vs"

definition strictlyNewestFirst :: "FileVersion list \<Rightarrow> bool" where
  "strictlyNewestFirst vs \<longleftrightarrow> sorted_wrt (\<lambda>a b. lastModified a > lastModified b) vs"

section \<open>Properties\<close>

subsection \<open>Decimal numerals and tag keys\<close>

lemma digit_inj: "a < 10 \<Longrightarrow> b < 10 \<Longrightarrow> digit a = digit b \<Longrightarrow> a = b"
proof -
  assume a: "a < 10" and b: "b < 10" and e: "digit a = digit b"
  have d: "distinct ''0123456789''" by simp
  have "a < length ''0123456789''" "b < length ''0123456789''" using a b by simp_all
  with d e show "a = b" unfolding digit_def by (simp only: nth_eq_iff_index_eq)
qed

lemma decimal_nonempty: "decimal n \<noteq> []"
  by (subst decimal.simps) simp

lemma decimal_inj: "decimal n = decimal m \<Longrightarrow> n = m"
proof (induction n arbitrary: m rule: decimal.induct)
  case (1 n)
  show ?case
  proof (cases "n < 10")
    case small_n: True
    show ?thesis
    proof (cases "m < 10")
      case True
      with small_n "1.prems" show ?thesis
        by (simp add: decimal.simps [of n] decimal.simps [of m] digit_inj)
    next
      case False
      with small_n "1.prems" decimal_nonempty [of "m div 10"] show ?thesis
        by (simp add: decimal.simps [of n] decimal.simps [of m])
    qed
  next
    case big_n: False
    show ?thesis
    proof (cases "m < 10")
      case True
      with big_n "1.prems" decimal_nonempty [of "n div 10"] show ?thesis
        by (simp add: decimal.simps [of n] decimal.simps [of m])
    next
      case False
      with big_n "1.prems" have q: "decimal (n div 10) = decimal (m div 10)"
        and r: "digit (n mod 10) = digit (m mod 10)"
        by (simp_all add: decimal.simps [of n] decimal.simps [of m])
      from "1.IH" [OF big_n q] have "n div 10 = m div 10" .
      moreover from r have "n mod 10 = m mod 10" by (intro digit_inj) simp_all
      ultimately show ?thesis by (metis div_mult_mod_eq)
    qed
  qed
qed

lemma tagKey_inj: "tagKey i = tagKey j \<longleftrightarrow> i = j"
  by (auto simp: tagKey_def dest: decimal_inj)

lemma update_fresh: "k \<notin> fst ` set al \<Longrightarrow> AList.update k v al = al @ [(k, v)]"
  by (induction al) auto

lemma encode_loop:
  "\<forall>p \<in> set acc. \<forall>i \<ge> n. fst p \<noteq> tagKey i \<Longrightarrow>
   fold (\<lambda>(index, tag) tagMap. AList.update (tagKey index) tag tagMap) (enumerate n tags) acc
     = acc @ map (\<lambda>(index, tag). (tagKey index, tag)) (enumerate n tags)"
proof (induction tags arbitrary: n acc)
  case Nil
  show ?case by simp
next
  case (Cons t ts)
  have fresh: "tagKey n \<notin> fst ` set acc" using Cons.prems by force
  have next_ok: "\<forall>p \<in> set (acc @ [(tagKey n, t)]). \<forall>i \<ge> Suc n. fst p \<noteq> tagKey i"
    using Cons.prems by (auto simp: tagKey_inj)
  show ?case
    using Cons.IH [OF next_ok] by (simp add: update_fresh [OF fresh])
qed

lemma encodeTags_eq:
  "encodeTags tags = map (\<lambda>(index, tag). (tagKey index, tag)) (enumerate 0 tags)"
  unfolding encodeTags_def using encode_loop [of "[]" 0 tags] by simp

lemma values_encodeTags: "map snd (encodeTags tags) = tags"
proof -
  have "map snd (map (\<lambda>(index, tag). (tagKey index, tag)) (enumerate n tags)) = tags" for n
    by (induction tags arbitrary: n) simp_all
  then show ?thesis by (simp only: encodeTags_eq)
qed

lemma decode_encode: "decodeTags (encodeTags tags) = filter (\<lambda>t. t \<noteq> []) tags"
  by (simp add: decodeTags_def values_encodeTags)

subsection \<open>Unfolding the store and the example deployment\<close>

lemmas ex_defs = exampleService_def constructor_def viewer_def contributor_def admin_def entry_def storeOf_def
  noFaults_def
lemmas store_defs = getObject_def statObject_def removeObject_def putObject_def listObjects_def getObjectTagging_def setObjectTagging_def setBucket_def named_def hasPrefix_def

subsection \<open>Writing a tag mapping and reading it back\<close>

lemma find_retag:
  "find (named k) es = Some e \<Longrightarrow> find (named k) (retag k tags es) = Some (e\<lparr>tagging := tags\<rparr>)"
  by (induction es) (auto simp: named_def)

lemma getObjectTagging_after_set:
  "setObjectTagging st b k tags = (Inr (), st') \<Longrightarrow>
   getObjectTagging st' b k = (if rejects st (GetObjectTagging b k) then Inl BackendFailure else Inr tags)"
  by (auto simp: setObjectTagging_def getObjectTagging_def setBucket_def find_retag
           split: if_splits option.splits)

lemma tagBuckets_hd: "tagBuckets this userContext = getBucketName this userContext # tl (tagBuckets this userContext)"
  by (simp add: tagBuckets_def)

lemma set_then_get_tags:
  assumes ok: "fst (setFileTagsAsync this fileName tags userContext st) = Inr True"
    and served: "\<not> rejects st (GetObjectTagging (getBucketName this userContext) fileName)"
  shows "getFileTagsAsync this fileName userContext (snd (setFileTagsAsync this fileName tags userContext st))
      = Inr (decodeTags (encodeTags tags))"
proof -
  let ?b = "getBucketName this userContext"
  obtain r st' where r: "setObjectTagging st ?b fileName (encodeTags tags) = (r, st')"
    by (cases "setObjectTagging st ?b fileName (encodeTags tags)")
  with ok have "r = Inr ()" by (cases r) (simp_all add: setFileTagsAsync_def)
  with r have "getObjectTagging st' ?b fileName = Inr (encodeTags tags)"
    using served by (simp add: getObjectTagging_after_set)
  moreover have "snd (setFileTagsAsync this fileName tags userContext st) = st'"
    using r by (simp add: setFileTagsAsync_def split: sum.splits)
  ultimately show ?thesis
    by (subst getFileTagsAsync_def, subst tagBuckets_hd) simp
qed

section \<open>The tag codec\<close>

text \<open>
  Claim C1, as amended. The claim says that encoding any sequence of tags (empty strings
  included) and decoding the mapping again gives the sequence back. The decoder drops
  every empty value, so what comes back is the sequence without its empty strings, the
  other tags in their order and with their duplicates; it is the original sequence
  exactly when no tag is empty. This holds for a sequence of any length. The same is
  true through the service: when \<^verbatim>\<open>setFileTagsAsync\<close> reports success and the store
  serves the tag read of the caller's bucket, \<^verbatim>\<open>getFileTagsAsync\<close> of the same
  caller returns the non-empty tags in their order.
\<close>

theorem tag_round_trip:
  "decodeTags (encodeTags tags) = filter (\<lambda>t. t \<noteq> []) tags \<and>
   ([] \<notin> set tags \<longrightarrow> decodeTags (encodeTags tags) = tags) \<and>
   (fst (setFileTagsAsync this fileName tags userContext st) = Inr True \<longrightarrow>
    \<not> rejects st (GetObjectTagging (getBucketName this userContext) fileName) \<longrightarrow>
    getFileTagsAsync this fileName userContext (snd (setFileTagsAsync this fileName tags userContext st))
      = Inr (filter (\<lambda>t. t \<noteq> []) tags))"
proof (intro conjI impI)
  show "decodeTags (encodeTags tags) = filter (\<lambda>t. t \<noteq> []) tags" by (rule decode_encode)
next
  assume "[] \<notin> set tags"
  then have "filter (\<lambda>t. t \<noteq> []) tags = tags" by (induction tags) auto
  then show "decodeTags (encodeTags tags) = tags" by (simp add: decode_encode)
next
  assume "fst (setFileTagsAsync this fileName tags userContext st) = Inr True"
    and "\<not> rejects st (GetObjectTagging (getBucketName this userContext) fileName)"
  then show "getFileTagsAsync this fileName userContext (snd (setFileTagsAsync this fileName tags userContext st))
      = Inr (filter (\<lambda>t. t \<noteq> []) tags)"
    by (simp add: set_then_get_tags decode_encode)
qed

text \<open>A run of the theorem: a contributor tags \<^verbatim>\<open>report.pdf\<close> with a duplicated tag.\<close>

theorem tag_round_trip_witness:
  "[] \<notin> set [''Draft'', ''Reviewed'', ''Draft''] \<and>
   decodeTags (encodeTags [''Draft'', ''Reviewed'', ''Draft'']) = [''Draft'', ''Reviewed'', ''Draft''] \<and>
   fst (setFileTagsAsync exampleService ''report.pdf'' [''Draft'', ''Reviewed'', ''Draft''] contributor
          (storeOf [entry ''report.pdf'' None 5 ''x'' []] [] noFaults)) = Inr True \<and>
   getFileTagsAsync exampleService ''report.pdf'' contributor
     (snd (setFileTagsAsync exampleService ''report.pdf'' [''Draft'', ''Reviewed'', ''Draft''] contributor
          (storeOf [entry ''report.pdf'' None 5 ''x'' []] [] noFaults)))
     = Inr [''Draft'', ''Reviewed'', ''Draft'']"
proof -
  have ok: "fst (setFileTagsAsync exampleService ''report.pdf'' [''Draft'', ''Reviewed'', ''Draft''] contributor
          (storeOf [entry ''report.pdf'' None 5 ''x'' []] [] noFaults)) = Inr True"
    by (simp add: setFileTagsAsync_def ex_defs store_defs getBucketName_def Let_def)
  have served: "\<not> rejects (storeOf [entry ''report.pdf'' None 5 ''x'' []] [] noFaults)
          (GetObjectTagging (getBucketName exampleService contributor) ''report.pdf'')"
    by (simp add: storeOf_def noFaults_def)
  show ?thesis
    using tag_round_trip [of "[''Draft'', ''Reviewed'', ''Draft'']" exampleService "''report.pdf''" contributor
        "storeOf [entry ''report.pdf'' None 5 ''x'' []] [] noFaults"] ok served
    by simp
qed

text \<open>Claim C1 as stated fails for a sequence with an empty string: the empty tag is lost.\<close>

theorem tag_round_trip_counterexample:
  "decodeTags (encodeTags [''a'', '''', ''b'']) = [''a'', ''b''] \<and>
   decodeTags (encodeTags [''a'', '''', ''b'']) \<noteq> [''a'', '''', ''b'']"
  by code_simp

section \<open>The buckets a caller reads, and the loops over them\<close>

lemma readBuckets_Admin: "role userContext = Admin \<Longrightarrow> readBuckets this userContext = [stableBucket this, workingBucket this]"
  by (simp add: readBuckets_def getBucketName_def)

lemma readBuckets_other: "role userContext \<noteq> Admin \<Longrightarrow> readBuckets this userContext = [workingBucket this]"
  by (cases "role userContext") (simp_all add: readBuckets_def getBucketName_def)

lemma tagBuckets_readBuckets: "tagBuckets this userContext = readBuckets this userContext"
  by (cases "role userContext") (simp_all add: readBuckets_def tagBuckets_def)

lemma downloadLoop_find:
  "downloadLoop st fileName bs =
     (case find (\<lambda>b. \<not> isl (getObject st b fileName None)) bs of
        Some b \<Rightarrow> getObject st b fileName None
      | None \<Rightarrow> Inl (Error (''File '' @ fileName @ '' not found'')))"
  by (induction bs) (auto split: sum.splits)

lemma downloadVersionLoop_find:
  "downloadVersionLoop st fileName v bs =
     (case find (\<lambda>b. \<not> isl (getObject st b fileName (Some v))) bs of
        Some b \<Rightarrow> getObject st b fileName (Some v)
      | None \<Rightarrow> Inl (Error (''File '' @ fileName @ '' version '' @ v @ '' not found'')))"
  by (induction bs) (auto split: sum.splits)

lemma existsLoop_find:
  "existsLoop st fileName bs = Inr (find (\<lambda>b. \<not> isl (statObject st b fileName)) bs \<noteq> None)"
  by (induction bs) (auto split: sum.splits)

lemma tagsLoop_find:
  "tagsLoop st fileName bs =
     (case find (\<lambda>b. \<not> isl (getObjectTagging st b fileName)) bs of
        Some b \<Rightarrow> map_sum id decodeTags (getObjectTagging st b fileName)
      | None \<Rightarrow> Inr [])"
  by (induction bs) (auto split: sum.splits)

lemma set_fold_pushName:
  "set (fold pushName objs files) = set files \<union> {n. n \<noteq> [] \<and> Some n \<in> obj_name ` set objs}"
  by (induction objs arbitrary: files) (auto simp: pushName_def split: option.splits)

lemma listLoop_mono: "set files \<subseteq> set (listLoop st bs files)"
proof (induction bs arbitrary: files)
  case Nil
  show ?case by simp
next
  case (Cons b bs)
  show ?case
  proof (cases "listObjects st b []")
    case (Inl e)
    then show ?thesis using Cons.IH [of files] by simp
  next
    case (Inr objs)
    have "set files \<subseteq> set (fold pushName objs files)" by (simp add: set_fold_pushName)
    also have "\<dots> \<subseteq> set (listLoop st bs (fold pushName objs files))" by (rule Cons.IH)
    finally show ?thesis using Inr by simp
  qed
qed

section \<open>Shadowing: the stable bucket comes first for an administrator\<close>

text \<open>
  Claim C2. A bucket holds a name when the store yields the object from it
  (\<open>getObject\<close> answers \<open>Inr\<close> with its content). When both buckets yield the name,
  with different contents, the download of a caller with the Admin role searches
  \<open>[stable, working]\<close> and returns the content of the stable bucket, never that of the
  working bucket.
\<close>

theorem admin_download_prefers_stable:
  "role userContext = Admin \<Longrightarrow>
   getObject st (stableBucket this) fileName None = Inr stableContent \<Longrightarrow>
   getObject st (workingBucket this) fileName None = Inr workingContent \<Longrightarrow>
   stableContent \<noteq> workingContent \<Longrightarrow>
   readBuckets this userContext = [stableBucket this, workingBucket this] \<and>
   downloadFileAsync this fileName userContext st = Inr stableContent \<and>
   downloadFileAsync this fileName userContext st \<noteq> Inr workingContent"
  by (simp add: downloadFileAsync_def readBuckets_Admin)

text \<open>A run: \<^verbatim>\<open>report.pdf\<close> is a draft in the working bucket and released in the stable one.\<close>

theorem admin_download_prefers_stable_witness:
  "role admin = Admin \<and>
   getObject (storeOf [entry ''report.pdf'' None 5 ''draft'' []] [entry ''report.pdf'' None 3 ''released'' []] noFaults)
     (stableBucket exampleService) ''report.pdf'' None = Inr ''released'' \<and>
   getObject (storeOf [entry ''report.pdf'' None 5 ''draft'' []] [entry ''report.pdf'' None 3 ''released'' []] noFaults)
     (workingBucket exampleService) ''report.pdf'' None = Inr ''draft'' \<and>
   downloadFileAsync exampleService ''report.pdf'' admin
     (storeOf [entry ''report.pdf'' None 5 ''draft'' []] [entry ''report.pdf'' None 3 ''released'' []] noFaults)
     = Inr ''released''"
proof -
  let ?st = "storeOf [entry ''report.pdf'' None 5 ''draft'' []] [entry ''report.pdf'' None 3 ''released'' []] noFaults"
  have r: "role admin = Admin" by (simp add: admin_def)
  have s: "getObject ?st (stableBucket exampleService) ''report.pdf'' None = Inr ''released''"
    by (simp add: ex_defs store_defs)
  have w: "getObject ?st (workingBucket exampleService) ''report.pdf'' None = Inr ''draft''"
    by (simp add: ex_defs store_defs)
  have d: "''released'' \<noteq> ''draft''" by simp
  from admin_download_prefers_stable [OF r s w d] r s w show ?thesis by simp
qed

section \<open>Fallback reads swallow the error of a bucket\<close>

text \<open>
  Claim C5. Download, download of a version and the existence check return the answer
  of the first bucket of the search order that yields the object; the error of any
  bucket before it (whatever it is) is swallowed and the next bucket is tried. In
  particular an administrator's download succeeds with the working bucket's content
  when the stable bucket fails. Only when every searched bucket has failed does a
  download fail, and then with the service's own "not found" error, never with the
  error of the store; the existence check then answers \<open>False\<close> and is not an error.
\<close>

theorem fallback_reads_swallow_errors:
  "downloadFileAsync this fileName userContext st =
     (case find (\<lambda>b. \<not> isl (getObject st b fileName None)) (readBuckets this userContext) of
        Some b \<Rightarrow> getObject st b fileName None
      | None \<Rightarrow> Inl (Error (''File '' @ fileName @ '' not found''))) \<and>
   downloadFileVersionAsync this fileName v userContext st =
     (case find (\<lambda>b. \<not> isl (getObject st b fileName (Some v))) (readBuckets this userContext) of
        Some b \<Rightarrow> getObject st b fileName (Some v)
      | None \<Rightarrow> Inl (Error (''File '' @ fileName @ '' version '' @ v @ '' not found''))) \<and>
   fileExistsAsync this fileName userContext st =
     Inr (find (\<lambda>b. \<not> isl (statObject st b fileName)) (readBuckets this userContext) \<noteq> None) \<and>
   (role userContext = Admin \<longrightarrow>
    getObject st (stableBucket this) fileName None = Inl e \<longrightarrow>
    getObject st (workingBucket this) fileName None = Inr content \<longrightarrow>
    downloadFileAsync this fileName userContext st = Inr content) \<and>
   ((\<forall>b \<in> set (readBuckets this userContext). isl (getObject st b fileName None)) \<longrightarrow>
    downloadFileAsync this fileName userContext st = Inl (Error (''File '' @ fileName @ '' not found''))) \<and>
   ((\<forall>b \<in> set (readBuckets this userContext). isl (getObject st b fileName (Some v))) \<longrightarrow>
    downloadFileVersionAsync this fileName v userContext st =
      Inl (Error (''File '' @ fileName @ '' version '' @ v @ '' not found''))) \<and>
   ((\<forall>b \<in> set (readBuckets this userContext). isl (statObject st b fileName)) \<longrightarrow>
    fileExistsAsync this fileName userContext st = Inr False)"
proof -
  have none: "find P bs = None" if "\<forall>b \<in> set bs. \<not> P b" for P and bs :: "string list"
    using that by (simp add: find_None_iff)
  show ?thesis
    by (auto simp: downloadFileAsync_def downloadFileVersionAsync_def fileExistsAsync_def
        downloadLoop_find downloadVersionLoop_find existsLoop_find readBuckets_Admin none)
qed

text \<open>Runs: the stable bucket is unreachable and the working bucket has the file; then
  neither bucket yields it.\<close>

theorem fallback_reads_swallow_errors_witness:
  "getObject (storeOf [entry ''report.pdf'' None 5 ''draft'' []] [entry ''report.pdf'' None 3 ''released'' []] stableDown)
     (stableBucket exampleService) ''report.pdf'' None = Inl BackendFailure \<and>
   downloadFileAsync exampleService ''report.pdf'' admin
     (storeOf [entry ''report.pdf'' None 5 ''draft'' []] [entry ''report.pdf'' None 3 ''released'' []] stableDown)
     = Inr ''draft'' \<and>
   isl (getObject (storeOf [] [] stableDown) (stableBucket exampleService) ''report.pdf'' None) \<and>
   isl (getObject (storeOf [] [] stableDown) (workingBucket exampleService) ''report.pdf'' None) \<and>
   downloadFileAsync exampleService ''report.pdf'' admin (storeOf [] [] stableDown)
     = Inl (Error ''File report.pdf not found'') \<and>
   downloadFileVersionAsync exampleService ''report.pdf'' ''v1'' admin (storeOf [] [] stableDown)
     = Inl (Error ''File report.pdf version v1 not found'') \<and>
   fileExistsAsync exampleService ''report.pdf'' admin (storeOf [] [] stableDown) = Inr False"
proof -
  let ?st = "storeOf [entry ''report.pdf'' None 5 ''draft'' []] [entry ''report.pdf'' None 3 ''released'' []] stableDown"
  let ?empty = "storeOf [] [] stableDown"
  have r: "role admin = Admin" by (simp add: admin_def)
  have s: "getObject ?st (stableBucket exampleService) ''report.pdf'' None = Inl BackendFailure"
    by (simp add: ex_defs store_defs stableDown_def callBucket_def)
  have w: "getObject ?st (workingBucket exampleService) ''report.pdf'' None = Inr ''draft''"
    by (simp add: ex_defs store_defs stableDown_def callBucket_def)
  have bs: "readBuckets exampleService admin = [''calcpad-stable'', ''calcpad-working'']"
    by (simp add: readBuckets_def getBucketName_def ex_defs)
  have g: "\<forall>b \<in> set (readBuckets exampleService admin). isl (getObject ?empty b ''report.pdf'' None)"
    by (simp add: bs store_defs storeOf_def noFaults_def stableDown_def callBucket_def)
  have gv: "\<forall>b \<in> set (readBuckets exampleService admin). isl (getObject ?empty b ''report.pdf'' (Some ''v1''))"
    by (simp add: bs store_defs storeOf_def noFaults_def stableDown_def callBucket_def)
  have e: "\<forall>b \<in> set (readBuckets exampleService admin). isl (statObject ?empty b ''report.pdf'')"
    by (simp add: bs store_defs storeOf_def noFaults_def stableDown_def callBucket_def)
  from fallback_reads_swallow_errors [of exampleService "''report.pdf''" admin ?st "''v1''" BackendFailure "''draft''"]
    r s w
  have 1: "downloadFileAsync exampleService ''report.pdf'' admin ?st = Inr ''draft''" by blast
  from fallback_reads_swallow_errors [of exampleService "''report.pdf''" admin ?empty "''v1''" BackendFailure "''draft''"]
    g gv e
  have 2: "downloadFileAsync exampleService ''report.pdf'' admin ?empty = Inl (Error (''File '' @ ''report.pdf'' @ '' not found''))
    \<and> downloadFileVersionAsync exampleService ''report.pdf'' ''v1'' admin ?empty
         = Inl (Error (''File '' @ ''report.pdf'' @ '' version '' @ ''v1'' @ '' not found''))
    \<and> fileExistsAsync exampleService ''report.pdf'' admin ?empty = Inr False" by blast
  have g': "isl (getObject ?empty (stableBucket exampleService) ''report.pdf'' None)
      \<and> isl (getObject ?empty (workingBucket exampleService) ''report.pdf'' None)"
    by (simp add: ex_defs store_defs stableDown_def callBucket_def)
  from s 1 g' 2 show ?thesis by simp
qed

section \<open>Reading tags\<close>

text \<open>
  Claim C9. \<^verbatim>\<open>getFileTagsAsync\<close> returns the decoded tags of the first bucket of the
  search order whose tag read succeeds. The caller's primary bucket is searched first,
  and a successful read there ends the search even when the tag set is empty; for an
  administrator whose stable bucket fails the working bucket is read. If the tag read
  fails in every searched bucket the result is the empty list, not an error.
\<close>

theorem get_tags_first_readable_bucket:
  "getFileTagsAsync this fileName userContext st =
     (case find (\<lambda>b. \<not> isl (getObjectTagging st b fileName)) (readBuckets this userContext) of
        Some b \<Rightarrow> map_sum id decodeTags (getObjectTagging st b fileName)
      | None \<Rightarrow> Inr []) \<and>
   (getObjectTagging st (getBucketName this userContext) fileName = Inr result \<longrightarrow>
    getFileTagsAsync this fileName userContext st = Inr (decodeTags result)) \<and>
   (getObjectTagging st (getBucketName this userContext) fileName = Inr [] \<longrightarrow>
    getFileTagsAsync this fileName userContext st = Inr []) \<and>
   (role userContext = Admin \<longrightarrow>
    getObjectTagging st (stableBucket this) fileName = Inl e \<longrightarrow>
    getObjectTagging st (workingBucket this) fileName = Inr result \<longrightarrow>
    getFileTagsAsync this fileName userContext st = Inr (decodeTags result)) \<and>
   ((\<forall>b \<in> set (readBuckets this userContext). isl (getObjectTagging st b fileName)) \<longrightarrow>
    getFileTagsAsync this fileName userContext st = Inr [])"
proof -
  have none: "find P bs = None" if "\<forall>b \<in> set bs. \<not> P b" for P and bs :: "string list"
    using that by (simp add: find_None_iff)
  have hd: "readBuckets this userContext = getBucketName this userContext # tl (readBuckets this userContext)"
    by (simp add: readBuckets_def)
  have first: "getFileTagsAsync this fileName userContext st = Inr (decodeTags r)"
    if "getObjectTagging st (getBucketName this userContext) fileName = Inr r" for r
    using that by (subst getFileTagsAsync_def, subst tagBuckets_readBuckets, subst hd) simp
  show ?thesis
  proof (intro conjI impI)
    show "getFileTagsAsync this fileName userContext st =
     (case find (\<lambda>b. \<not> isl (getObjectTagging st b fileName)) (readBuckets this userContext) of
        Some b \<Rightarrow> map_sum id decodeTags (getObjectTagging st b fileName)
      | None \<Rightarrow> Inr [])"
      by (simp add: getFileTagsAsync_def tagBuckets_readBuckets tagsLoop_find)
  next
    assume "getObjectTagging st (getBucketName this userContext) fileName = Inr result"
    then show "getFileTagsAsync this fileName userContext st = Inr (decodeTags result)" by (rule first)
  next
    assume "getObjectTagging st (getBucketName this userContext) fileName = Inr []"
    then show "getFileTagsAsync this fileName userContext st = Inr []"
      using first [of "[]"] by (simp add: decodeTags_def)
  next
    assume "role userContext = Admin"
      and "getObjectTagging st (stableBucket this) fileName = Inl e"
      and "getObjectTagging st (workingBucket this) fileName = Inr result"
    then show "getFileTagsAsync this fileName userContext st = Inr (decodeTags result)"
      by (simp add: getFileTagsAsync_def tagBuckets_readBuckets readBuckets_Admin)
  next
    assume "\<forall>b \<in> set (readBuckets this userContext). isl (getObjectTagging st b fileName)"
    then show "getFileTagsAsync this fileName userContext st = Inr []"
      by (simp add: getFileTagsAsync_def tagBuckets_readBuckets tagsLoop_find none)
  qed
qed

text \<open>Runs: the stable bucket has the file without tags and the working bucket has it
  with a tag; only the working bucket has the file; no bucket can be read.\<close>

theorem get_tags_first_readable_bucket_witness:
  "getObjectTagging (storeOf [entry ''report.pdf'' None 5 ''draft'' [(''tag-0'', ''Draft'')]]
                            [entry ''report.pdf'' None 3 ''released'' []] noFaults)
     (getBucketName exampleService admin) ''report.pdf'' = Inr [] \<and>
   getFileTagsAsync exampleService ''report.pdf'' admin
     (storeOf [entry ''report.pdf'' None 5 ''draft'' [(''tag-0'', ''Draft'')]]
              [entry ''report.pdf'' None 3 ''released'' []] noFaults) = Inr [] \<and>
   getFileTagsAsync exampleService ''report.pdf'' admin
     (storeOf [entry ''report.pdf'' None 5 ''draft'' [(''tag-0'', ''Draft''), (''tag-1'', ''Reviewed'')]] [] noFaults)
     = Inr [''Draft'', ''Reviewed''] \<and>
   isl (getObjectTagging (storeOf [] [] stableDown) (stableBucket exampleService) ''report.pdf'') \<and>
   isl (getObjectTagging (storeOf [] [] stableDown) (workingBucket exampleService) ''report.pdf'') \<and>
   getFileTagsAsync exampleService ''report.pdf'' admin (storeOf [] [] stableDown) = Inr []"
proof -
  let ?both = "storeOf [entry ''report.pdf'' None 5 ''draft'' [(''tag-0'', ''Draft'')]]
                       [entry ''report.pdf'' None 3 ''released'' []] noFaults"
  let ?work = "storeOf [entry ''report.pdf'' None 5 ''draft'' [(''tag-0'', ''Draft''), (''tag-1'', ''Reviewed'')]] [] noFaults"
  let ?empty = "storeOf [] [] stableDown"
  have r: "role admin = Admin" by (simp add: admin_def)
  have bs: "readBuckets exampleService admin = [''calcpad-stable'', ''calcpad-working'']"
    by (simp add: readBuckets_def getBucketName_def ex_defs)
  have a: "getObjectTagging ?both (getBucketName exampleService admin) ''report.pdf'' = Inr []"
    by (simp add: getBucketName_def ex_defs store_defs)
  have b1: "getObjectTagging ?work (stableBucket exampleService) ''report.pdf'' = Inl NoSuchKey"
    by (simp add: ex_defs store_defs)
  have b2: "getObjectTagging ?work (workingBucket exampleService) ''report.pdf''
      = Inr [(''tag-0'', ''Draft''), (''tag-1'', ''Reviewed'')]"
    by (simp add: ex_defs store_defs)
  have c: "\<forall>b \<in> set (readBuckets exampleService admin). isl (getObjectTagging ?empty b ''report.pdf'')"
    by (simp add: bs store_defs storeOf_def noFaults_def stableDown_def callBucket_def)
  from get_tags_first_readable_bucket [of exampleService "''report.pdf''" admin ?both "[]" NoSuchKey] a
  have 1: "getFileTagsAsync exampleService ''report.pdf'' admin ?both = Inr []" by blast
  from get_tags_first_readable_bucket [of exampleService "''report.pdf''" admin ?work
      "[(''tag-0'', ''Draft''), (''tag-1'', ''Reviewed'')]" NoSuchKey] r b1 b2
  have 2: "getFileTagsAsync exampleService ''report.pdf'' admin ?work
      = Inr (decodeTags [(''tag-0'', ''Draft''), (''tag-1'', ''Reviewed'')])" by blast
  from get_tags_first_readable_bucket [of exampleService "''report.pdf''" admin ?empty "[]" NoSuchKey] c
  have 3: "getFileTagsAsync exampleService ''report.pdf'' admin ?empty = Inr []" by blast
  have c': "isl (getObjectTagging ?empty (stableBucket exampleService) ''report.pdf'')
      \<and> isl (getObjectTagging ?empty (workingBucket exampleService) ''report.pdf'')"
    by (simp add: ex_defs store_defs stableDown_def callBucket_def)
  from a 1 2 c' 3 show ?thesis by (simp add: decodeTags_def)
qed

section \<open>Callers without the Admin role never read the stable bucket\<close>

lemma reads_agree:
  assumes b: "buckets st' w = buckets st w"
    and r: "\<forall>c. callBucket c = w \<longrightarrow> rejects st' c = rejects st c"
  shows "getObject st' w k v = getObject st w k v"
    and "statObject st' w k = statObject st w k"
    and "listObjects st' w p = listObjects st w p"
    and "getObjectTagging st' w k = getObjectTagging st w k"
proof -
  have "rejects st' (GetObject w k v) = rejects st (GetObject w k v)"
    "rejects st' (StatObject w k) = rejects st (StatObject w k)"
    "rejects st' (ListObjects w p) = rejects st (ListObjects w p)"
    "rejects st' (GetObjectTagging w k) = rejects st (GetObjectTagging w k)"
    using r by (simp_all add: callBucket_def)
  then show "getObject st' w k v = getObject st w k v"
    and "statObject st' w k = statObject st w k"
    and "listObjects st' w p = listObjects st w p"
    and "getObjectTagging st' w k = getObjectTagging st w k"
    using b by (simp_all add: getObject_def statObject_def listObjects_def getObjectTagging_def)
qed

lemma pushMetadata_agree:
  assumes "buckets st' w = buckets st w"
    and "\<forall>c. callBucket c = w \<longrightarrow> rejects st' c = rejects st c"
  shows "pushMetadata st' now w = pushMetadata st now w"
  by (intro ext) (simp add: pushMetadata_def reads_agree(2) [OF assms] split: option.splits)

lemma absent_NoSuchKey:
  assumes "\<forall>e \<in> set (buckets st b). \<not> named k e"
  shows "isl (getObject st b k v)" and "isl (statObject st b k)"
proof -
  have "find (\<lambda>e. named k e \<and> P e) (buckets st b) = None" for P
    using assms by (auto simp: find_None_iff)
  moreover have "find (named k) (buckets st b) = None"
    using assms by (simp add: find_None_iff)
  ultimately show "isl (getObject st b k v)" and "isl (statObject st b k)"
    by (simp_all add: getObject_def statObject_def)
qed

lemma absent_not_listed:
  assumes "\<forall>e \<in> set (buckets st b). \<not> named k e"
  shows "k \<notin> set (listLoop st [b] [])"
proof (cases "listObjects st b []")
  case (Inl e)
  then show ?thesis by simp
next
  case (Inr objs)
  then have "set objs \<subseteq> item ` set (buckets st b)"
    by (auto simp: listObjects_def split: if_splits)
  with assms have "Some k \<notin> obj_name ` set objs" unfolding named_def by force
  with Inr show ?thesis by (simp add: set_fold_pushName)
qed

lemma present_listed:
  assumes "find (named k) (buckets st b) = Some e" and "k \<noteq> []"
    and "\<not> rejects st (ListObjects b [])"
  shows "k \<in> set (listLoop st (b # bs) files)"
proof -
  from assms(1) have e: "e \<in> set (buckets st b)" "named k e"
    by (auto simp: find_Some_iff in_set_conv_nth)
  then have "hasPrefix [] e" by (simp add: hasPrefix_def named_def)
  with e have "Some k \<in> obj_name ` set (map item (filter (hasPrefix []) (buckets st b)))"
    by (force simp: named_def)
  with assms(2) have "k \<in> set (fold pushName (map item (filter (hasPrefix []) (buckets st b))) files)"
    by (simp add: set_fold_pushName)
  then show ?thesis
    using assms(3) listLoop_mono [of "fold pushName (map item (filter (hasPrefix []) (buckets st b))) files" st bs]
    by (auto simp: listObjects_def)
qed

text \<open>
  Claim C3. For a caller whose role is Viewer or Contributor the search order is the
  working bucket alone, and download, exists, list, list-with-metadata, get-tags and
  version-list give the same result in any two stores that agree on the working bucket
  (its entries and the calls to it that the store rejects), whatever the stable bucket
  holds. For a name with no entry in the working bucket such a caller's download fails
  with the "not found" error, exists is \<open>False\<close> and the list omits the name. When
  the stable bucket holds the name and serves the calls, the same download, exists and
  list issued with the Admin role succeed and find it.
\<close>

theorem non_admin_reads_working_bucket_only:
  "(role userContext = Viewer \<or> role userContext = Contributor \<longrightarrow>
      readBuckets this userContext = [workingBucket this] \<and>
      (buckets st' (workingBucket this) = buckets st (workingBucket this) \<longrightarrow>
       (\<forall>c. callBucket c = workingBucket this \<longrightarrow> rejects st' c = rejects st c) \<longrightarrow>
         downloadFileAsync this fileName userContext st' = downloadFileAsync this fileName userContext st \<and>
         fileExistsAsync this fileName userContext st' = fileExistsAsync this fileName userContext st \<and>
         listFilesAsync this userContext st' = listFilesAsync this userContext st \<and>
         listFilesWithMetadataAsync this now userContext st' = listFilesWithMetadataAsync this now userContext st \<and>
         getFileTagsAsync this fileName userContext st' = getFileTagsAsync this fileName userContext st \<and>
         listFileVersionsAsync this now fileName userContext st' = listFileVersionsAsync this now fileName userContext st) \<and>
      ((\<forall>e \<in> set (buckets st (workingBucket this)). \<not> named fileName e) \<longrightarrow>
         downloadFileAsync this fileName userContext st = Inl (Error (''File '' @ fileName @ '' not found'')) \<and>
         fileExistsAsync this fileName userContext st = Inr False \<and>
         (\<exists>files. listFilesAsync this userContext st = Inr files \<and> fileName \<notin> set files))) \<and>
   (role adminContext = Admin \<longrightarrow>
    find (named fileName) (buckets st (stableBucket this)) = Some e \<longrightarrow>
    fileName \<noteq> [] \<longrightarrow>
    \<not> rejects st (GetObject (stableBucket this) fileName None) \<longrightarrow>
    \<not> rejects st (StatObject (stableBucket this) fileName) \<longrightarrow>
    \<not> rejects st (ListObjects (stableBucket this) []) \<longrightarrow>
      downloadFileAsync this fileName adminContext st = Inr (body e) \<and>
      fileExistsAsync this fileName adminContext st = Inr True \<and>
      (\<exists>files. listFilesAsync this adminContext st = Inr files \<and> fileName \<in> set files))"
proof (intro conjI impI)
  assume "role userContext = Viewer \<or> role userContext = Contributor"
  then have na: "role userContext \<noteq> Admin" by auto
  note bs = readBuckets_other [OF na]
  show "readBuckets this userContext = [workingBucket this]" by (rule bs)
  {
    assume b: "buckets st' (workingBucket this) = buckets st (workingBucket this)"
      and r: "\<forall>c. callBucket c = workingBucket this \<longrightarrow> rejects st' c = rejects st c"
    note eq = reads_agree [OF b r] pushMetadata_agree [OF b r]
    show "downloadFileAsync this fileName userContext st' = downloadFileAsync this fileName userContext st"
      by (simp add: downloadFileAsync_def bs eq split: sum.splits)
    show "fileExistsAsync this fileName userContext st' = fileExistsAsync this fileName userContext st"
      by (simp add: fileExistsAsync_def bs eq split: sum.splits)
    show "listFilesAsync this userContext st' = listFilesAsync this userContext st"
      by (simp add: listFilesAsync_def bs eq split: sum.splits)
    show "listFilesWithMetadataAsync this now userContext st' = listFilesWithMetadataAsync this now userContext st"
      by (simp add: listFilesWithMetadataAsync_def bs eq split: sum.splits)
    show "getFileTagsAsync this fileName userContext st' = getFileTagsAsync this fileName userContext st"
      by (simp add: getFileTagsAsync_def tagBuckets_readBuckets bs eq split: sum.splits)
    show "listFileVersionsAsync this now fileName userContext st' = listFileVersionsAsync this now fileName userContext st"
      by (simp add: listFileVersionsAsync_def bs eq Let_def split: sum.splits)
  }
  {
    assume absent: "\<forall>e \<in> set (buckets st (workingBucket this)). \<not> named fileName e"
    from absent_NoSuchKey [OF absent]
    show "downloadFileAsync this fileName userContext st = Inl (Error (''File '' @ fileName @ '' not found''))"
      and "fileExistsAsync this fileName userContext st = Inr False"
      by (simp_all add: downloadFileAsync_def fileExistsAsync_def bs downloadLoop_find existsLoop_find)
    show "\<exists>files. listFilesAsync this userContext st = Inr files \<and> fileName \<notin> set files"
      using absent_not_listed [OF absent] by (simp add: listFilesAsync_def bs)
  }
next
  assume a: "role adminContext = Admin"
    and e: "find (named fileName) (buckets st (stableBucket this)) = Some e"
    and n: "fileName \<noteq> []"
    and g: "\<not> rejects st (GetObject (stableBucket this) fileName None)"
    and s: "\<not> rejects st (StatObject (stableBucket this) fileName)"
    and l: "\<not> rejects st (ListObjects (stableBucket this) [])"
  note bs = readBuckets_Admin [OF a]
  show "downloadFileAsync this fileName adminContext st = Inr (body e)"
    using e g by (simp add: downloadFileAsync_def bs getObject_def)
  show "fileExistsAsync this fileName adminContext st = Inr True"
    using e s by (simp add: fileExistsAsync_def bs statObject_def)
  show "\<exists>files. listFilesAsync this adminContext st = Inr files \<and> fileName \<in> set files"
    using present_listed [OF e n l] by (simp add: listFilesAsync_def bs)
qed

text \<open>A run: \<^verbatim>\<open>released.pdf\<close> is in the stable bucket only; a second store has an
  empty, unreachable stable bucket and the same working bucket.\<close>

theorem non_admin_reads_working_bucket_only_witness:
  "role viewer = Viewer \<and>
   downloadFileAsync exampleService ''released.pdf'' viewer
     (storeOf [entry ''draft.pdf'' None 5 ''draft'' []] [entry ''released.pdf'' None 3 ''released'' []] noFaults)
     = Inl (Error ''File released.pdf not found'') \<and>
   fileExistsAsync exampleService ''released.pdf'' viewer
     (storeOf [entry ''draft.pdf'' None 5 ''draft'' []] [entry ''released.pdf'' None 3 ''released'' []] noFaults)
     = Inr False \<and>
   listFilesAsync exampleService viewer
     (storeOf [entry ''draft.pdf'' None 5 ''draft'' []] [entry ''released.pdf'' None 3 ''released'' []] noFaults)
     = Inr [''draft.pdf''] \<and>
   downloadFileAsync exampleService ''released.pdf'' admin
     (storeOf [entry ''draft.pdf'' None 5 ''draft'' []] [entry ''released.pdf'' None 3 ''released'' []] noFaults)
     = Inr ''released'' \<and>
   fileExistsAsync exampleService ''released.pdf'' admin
     (storeOf [entry ''draft.pdf'' None 5 ''draft'' []] [entry ''released.pdf'' None 3 ''released'' []] noFaults)
     = Inr True \<and>
   listFilesAsync exampleService admin
     (storeOf [entry ''draft.pdf'' None 5 ''draft'' []] [entry ''released.pdf'' None 3 ''released'' []] noFaults)
     = Inr [''released.pdf'', ''draft.pdf''] \<and>
   listFilesWithMetadataAsync exampleService 9 viewer (storeOf [entry ''draft.pdf'' None 5 ''draft'' []] [] stableDown)
     = listFilesWithMetadataAsync exampleService 9 viewer
         (storeOf [entry ''draft.pdf'' None 5 ''draft'' []] [entry ''released.pdf'' None 3 ''released'' []] noFaults) \<and>
   listFileVersionsAsync exampleService 9 ''released.pdf'' viewer (storeOf [entry ''draft.pdf'' None 5 ''draft'' []] [] stableDown)
     = listFileVersionsAsync exampleService 9 ''released.pdf'' viewer
         (storeOf [entry ''draft.pdf'' None 5 ''draft'' []] [entry ''released.pdf'' None 3 ''released'' []] noFaults)"
proof -
  let ?st = "storeOf [entry ''draft.pdf'' None 5 ''draft'' []] [entry ''released.pdf'' None 3 ''released'' []] noFaults"
  let ?st' = "storeOf [entry ''draft.pdf'' None 5 ''draft'' []] [] stableDown"
  have v: "role viewer = Viewer \<or> role viewer = Contributor" by (simp add: viewer_def)
  have v1: "role viewer = Viewer" by (simp add: viewer_def)
  have a: "role admin = Admin" by (simp add: admin_def)
  have same: "buckets ?st' (workingBucket exampleService) = buckets ?st (workingBucket exampleService)"
    by (simp add: ex_defs)
  have faults: "\<forall>c. callBucket c = workingBucket exampleService \<longrightarrow> rejects ?st' c = rejects ?st c"
    by (simp add: ex_defs stableDown_def)
  have absent: "\<forall>e \<in> set (buckets ?st (workingBucket exampleService)). \<not> named ''released.pdf'' e"
    by (simp add: ex_defs named_def)
  have present: "find (named ''released.pdf'') (buckets ?st (stableBucket exampleService))
      = Some (entry ''released.pdf'' None 3 ''released'' [])"
    by (simp add: ex_defs named_def)
  have n: "''released.pdf'' \<noteq> []" by simp
  have served: "\<not> rejects ?st (GetObject (stableBucket exampleService) ''released.pdf'' None)"
    "\<not> rejects ?st (StatObject (stableBucket exampleService) ''released.pdf'')"
    "\<not> rejects ?st (ListObjects (stableBucket exampleService) [])"
    by (simp_all add: storeOf_def noFaults_def)
  have lv: "listFilesAsync exampleService viewer ?st = Inr [''draft.pdf'']"
    by (simp add: listFilesAsync_def readBuckets_def getBucketName_def pushName_def ex_defs store_defs)
  have la: "listFilesAsync exampleService admin ?st = Inr [''released.pdf'', ''draft.pdf'']"
    by (simp add: listFilesAsync_def readBuckets_def getBucketName_def pushName_def ex_defs store_defs)
  have b: "body (entry ''released.pdf'' None 3 ''released'' []) = ''released''" by (simp add: entry_def)
  from non_admin_reads_working_bucket_only [of viewer exampleService ?st' ?st "''released.pdf''" 9 admin
      "entry ''released.pdf'' None 3 ''released'' []"]
    v v1 a same faults absent present n served lv la b
  show ?thesis by simp
qed

section \<open>Deleting\<close>

lemma removeObject_removes:
  "fst (removeObject st b k) = Inr () \<Longrightarrow> \<forall>e \<in> set (buckets (snd (removeObject st b k)) b). \<not> named k e"
  by (auto simp: removeObject_def setBucket_def split: if_splits)

lemma removeObject_keeps_absent:
  "\<forall>e \<in> set (buckets st b). \<not> named k e \<Longrightarrow> \<forall>e \<in> set (buckets (snd (removeObject st b' k)) b). \<not> named k e"
  by (auto simp: removeObject_def setBucket_def)

lemma deleteFileAsync_eq:
  "deleteFileAsync this fileName userContext st =
     (Inr (fst (removeObject st (workingBucket this) fileName) = Inr () \<or>
           fst (removeObject (snd (removeObject st (workingBucket this) fileName)) (stableBucket this) fileName) = Inr ()),
      snd (removeObject (snd (removeObject st (workingBucket this) fileName)) (stableBucket this) fileName))"
  by (simp add: deleteFileAsync_def removeObject_def)

lemma readBuckets_subset: "set (readBuckets this userContext) \<subseteq> {workingBucket this, stableBucket this}"
  by (cases "role userContext") (simp_all add: readBuckets_def getBucketName_def)

text \<open>
  Claim C4, as amended. Whatever the caller's role, \<^verbatim>\<open>deleteFileAsync\<close> calls the
  removal for the working bucket and then for the stable bucket, whether or not the
  first call succeeded, and returns \<open>True\<close> exactly when at least one of the two calls
  succeeded; the result and the store it leaves are the same for every caller. After a
  delete whose removal call succeeded in both buckets, the existence check of a caller
  of any role answers \<open>False\<close> (for a name that was present in both buckets, or in
  either). The claim states this consequence for every delete of a name present in both
  buckets; it does not hold when the store rejects one of the two removals, since the
  delete then still succeeds and the name stays in the bucket whose removal failed.
\<close>

theorem delete_removes_from_both_buckets:
  "deleteFileAsync this fileName userContext st =
     (Inr (fst (removeObject st (workingBucket this) fileName) = Inr () \<or>
           fst (removeObject (snd (removeObject st (workingBucket this) fileName)) (stableBucket this) fileName) = Inr ()),
      snd (removeObject (snd (removeObject st (workingBucket this) fileName)) (stableBucket this) fileName)) \<and>
   deleteFileAsync this fileName otherContext st = deleteFileAsync this fileName userContext st \<and>
   (fst (removeObject st (workingBucket this) fileName) = Inr () \<longrightarrow>
    fst (removeObject (snd (removeObject st (workingBucket this) fileName)) (stableBucket this) fileName) = Inr () \<longrightarrow>
      fst (deleteFileAsync this fileName userContext st) = Inr True \<and>
      fileExistsAsync this fileName anyContext (snd (deleteFileAsync this fileName userContext st)) = Inr False)"
proof (intro conjI impI)
  show "deleteFileAsync this fileName userContext st =
     (Inr (fst (removeObject st (workingBucket this) fileName) = Inr () \<or>
           fst (removeObject (snd (removeObject st (workingBucket this) fileName)) (stableBucket this) fileName) = Inr ()),
      snd (removeObject (snd (removeObject st (workingBucket this) fileName)) (stableBucket this) fileName))"
    by (rule deleteFileAsync_eq)
  show "deleteFileAsync this fileName otherContext st = deleteFileAsync this fileName userContext st"
    by (simp add: deleteFileAsync_def)
next
  let ?st1 = "snd (removeObject st (workingBucket this) fileName)"
  let ?st2 = "snd (removeObject ?st1 (stableBucket this) fileName)"
  assume w: "fst (removeObject st (workingBucket this) fileName) = Inr ()"
    and s: "fst (removeObject ?st1 (stableBucket this) fileName) = Inr ()"
  then show "fst (deleteFileAsync this fileName userContext st) = Inr True"
    by (simp add: deleteFileAsync_eq)
  have "\<forall>e \<in> set (buckets ?st2 (workingBucket this)). \<not> named fileName e"
    using removeObject_removes [OF w] by (rule removeObject_keeps_absent)
  moreover have "\<forall>e \<in> set (buckets ?st2 (stableBucket this)). \<not> named fileName e"
    using s by (rule removeObject_removes)
  ultimately have "\<forall>b \<in> set (readBuckets this anyContext). isl (statObject ?st2 b fileName)"
    using readBuckets_subset [of this anyContext] absent_NoSuchKey(2) [of ?st2 _ fileName] by blast
  then have "find (\<lambda>b. \<not> isl (statObject ?st2 b fileName)) (readBuckets this anyContext) = None"
    by (simp add: find_None_iff)
  then show "fileExistsAsync this fileName anyContext (snd (deleteFileAsync this fileName userContext st)) = Inr False"
    by (simp add: deleteFileAsync_eq fileExistsAsync_def existsLoop_find)
qed

text \<open>A run: a contributor deletes a file that both buckets hold; afterwards neither an
  administrator nor a viewer finds it.\<close>

theorem delete_removes_from_both_buckets_witness:
  "fileExistsAsync exampleService ''report.pdf'' admin
     (storeOf [entry ''report.pdf'' None 5 ''draft'' []] [entry ''report.pdf'' None 3 ''released'' []] noFaults)
     = Inr True \<and>
   fst (deleteFileAsync exampleService ''report.pdf'' contributor
     (storeOf [entry ''report.pdf'' None 5 ''draft'' []] [entry ''report.pdf'' None 3 ''released'' []] noFaults))
     = Inr True \<and>
   fileExistsAsync exampleService ''report.pdf'' admin
     (snd (deleteFileAsync exampleService ''report.pdf'' contributor
       (storeOf [entry ''report.pdf'' None 5 ''draft'' []] [entry ''report.pdf'' None 3 ''released'' []] noFaults)))
     = Inr False \<and>
   fileExistsAsync exampleService ''report.pdf'' viewer
     (snd (deleteFileAsync exampleService ''report.pdf'' contributor
       (storeOf [entry ''report.pdf'' None 5 ''draft'' []] [entry ''report.pdf'' None 3 ''released'' []] noFaults)))
     = Inr False"
proof -
  let ?st = "storeOf [entry ''report.pdf'' None 5 ''draft'' []] [entry ''report.pdf'' None 3 ''released'' []] noFaults"
  have before: "fileExistsAsync exampleService ''report.pdf'' admin ?st = Inr True"
    by (simp add: fileExistsAsync_def readBuckets_def getBucketName_def ex_defs store_defs)
  have w: "fst (removeObject ?st (workingBucket exampleService) ''report.pdf'') = Inr ()"
    by (simp add: removeObject_def storeOf_def noFaults_def)
  have s: "fst (removeObject (snd (removeObject ?st (workingBucket exampleService) ''report.pdf''))
                 (stableBucket exampleService) ''report.pdf'') = Inr ()"
    by (simp add: removeObject_def storeOf_def noFaults_def setBucket_def)
  from delete_removes_from_both_buckets [of exampleService "''report.pdf''" contributor ?st viewer admin]
    delete_removes_from_both_buckets [of exampleService "''report.pdf''" contributor ?st viewer viewer]
    before w s
  show ?thesis by blast
qed

text \<open>Claim C4 as stated fails: both buckets hold \<^verbatim>\<open>report.pdf\<close> and the store rejects
  the removal from the stable bucket only. The delete of a contributor reports success,
  since the removal from the working bucket succeeded, and afterwards the existence
  check of an administrator still answers \<open>True\<close>.\<close>

theorem delete_removes_from_both_buckets_counterexample:
  "getObject (storeOf [entry ''report.pdf'' None 5 ''draft'' []] [entry ''report.pdf'' None 3 ''released'' []] stableLocked)
     (workingBucket exampleService) ''report.pdf'' None = Inr ''draft'' \<and>
   getObject (storeOf [entry ''report.pdf'' None 5 ''draft'' []] [entry ''report.pdf'' None 3 ''released'' []] stableLocked)
     (stableBucket exampleService) ''report.pdf'' None = Inr ''released'' \<and>
   fst (removeObject
          (storeOf [entry ''report.pdf'' None 5 ''draft'' []] [entry ''report.pdf'' None 3 ''released'' []] stableLocked)
          (stableBucket exampleService) ''report.pdf'') = Inl BackendFailure \<and>
   fst (deleteFileAsync exampleService ''report.pdf'' contributor
     (storeOf [entry ''report.pdf'' None 5 ''draft'' []] [entry ''report.pdf'' None 3 ''released'' []] stableLocked))
     = Inr True \<and>
   fileExistsAsync exampleService ''report.pdf'' viewer
     (snd (deleteFileAsync exampleService ''report.pdf'' contributor
       (storeOf [entry ''report.pdf'' None 5 ''draft'' []] [entry ''report.pdf'' None 3 ''released'' []] stableLocked)))
     = Inr False \<and>
   fileExistsAsync exampleService ''report.pdf'' admin
     (snd (deleteFileAsync exampleService ''report.pdf'' contributor
       (storeOf [entry ''report.pdf'' None 5 ''draft'' []] [entry ''report.pdf'' None 3 ''released'' []] stableLocked)))
     = Inr True \<and>
   fileExistsAsync exampleService ''report.pdf'' admin
     (snd (deleteFileAsync exampleService ''report.pdf'' contributor
       (storeOf [entry ''report.pdf'' None 5 ''draft'' []] [entry ''report.pdf'' None 3 ''released'' []] stableLocked)))
     \<noteq> Inr False"
  by (simp add: deleteFileAsync_def fileExistsAsync_def readBuckets_def getBucketName_def ex_defs store_defs
      stableLocked_def)

section \<open>Listing the versions of a file\<close>

lemma versionsLoop_find:
  "versionsLoop st now fileName bs =
     (case find (\<lambda>b. versionsIn st now fileName b \<noteq> []) bs of
        None \<Rightarrow> Inr []
      | Some b \<Rightarrow> Inr (sortVersions (versionsIn st now fileName b)))"
  by (induction bs) (auto simp: versionsIn_def Let_def split: sum.splits)

lemma named_hasPrefix: "named k e \<Longrightarrow> hasPrefix k e"
  by (simp add: named_def hasPrefix_def)

lemma versionsIn_exact:
  "versionsIn st now fileName b =
     (if rejects st (ListObjects b fileName) then []
      else map (\<lambda>e. toVersion now (item e)) (filter (named fileName) (buckets st b)))"
proof -
  have "filter (\<lambda>obj. obj_name obj = Some fileName) (map item (filter (hasPrefix fileName) es))
      = map item (filter (named fileName) es)" for es
    by (induction es) (auto simp: named_def hasPrefix_def)
  then show ?thesis
    by (simp add: versionsIn_def listObjects_def collectVersions_def)
qed

lemma newestFirst_sortVersions: "newestFirst (sortVersions vs)"
proof -
  have "sorted (map (\<lambda>v. - lastModified v) (sortVersions vs))"
    unfolding sortVersions_def by (rule sorted_sort_key)
  then show ?thesis by (simp add: newestFirst_def sorted_map)
qed

lemma mset_sortVersions: "mset (sortVersions vs) = mset vs"
  by (simp add: sortVersions_def)

lemma strictly_if_distinct:
  assumes "newestFirst vs" and "distinct (map lastModified vs)"
  shows "strictlyNewestFirst vs"
  using assms unfolding newestFirst_def strictlyNewestFirst_def
proof (induction vs)
  case Nil
  show ?case by simp
next
  case (Cons a vs)
  have "lastModified b < lastModified a" if "b \<in> set vs" for b
  proof -
    from that Cons.prems have "lastModified b \<le> lastModified a" by simp
    moreover from that Cons.prems have "lastModified a \<notin> lastModified ` set vs" by simp
    with that have "lastModified b \<noteq> lastModified a" by (metis imageI)
    ultimately have "lastModified b \<le> lastModified a" "lastModified b \<noteq> lastModified a" by simp_all
    then show ?thesis by simp
  qed
  with Cons show ?case by simp
qed

lemma distinct_times_sortVersions:
  "distinct (map lastModified vs) \<Longrightarrow> distinct (map lastModified (sortVersions vs))"
proof -
  assume "distinct (map lastModified vs)"
  then have "distinct (map lastModified vs) \<and> True" by simp
  moreover have "mset (map lastModified (sortVersions vs)) = mset (map lastModified vs)"
    by (simp add: mset_sortVersions)
  ultimately show ?thesis by (metis distinct_count_atmost_1 set_mset_mset)
qed

text \<open>
  Claim C6, as amended. \<^verbatim>\<open>listFileVersionsAsync\<close> never fails. It returns the versions
  of the first bucket of the search order that contributes at least one version, sorted,
  and the empty list when no bucket does; a bucket whose listing fails or has no entry
  of exactly that name is passed over, and the versions of two buckets are never
  merged. What a bucket contributes are the listed entries (listed under the name as
  prefix) whose name is the requested name exactly. The sorted list has the same
  versions as the unsorted one and is in descending order of last-modified time: no
  version is older than a version after it. The order is strictly descending when the
  last-modified times are pairwise distinct; the claim says strictly descending without
  that condition, which fails for two versions with the same time.
\<close>

theorem version_list_newest_first:
  "listFileVersionsAsync this now fileName userContext st =
     (case find (\<lambda>b. versionsIn st now fileName b \<noteq> []) (readBuckets this userContext) of
        None \<Rightarrow> Inr []
      | Some b \<Rightarrow> Inr (sortVersions (versionsIn st now fileName b))) \<and>
   versionsIn st now fileName bucket =
     (if rejects st (ListObjects bucket fileName) then []
      else map (\<lambda>e. toVersion now (item e)) (filter (named fileName) (buckets st bucket))) \<and>
   mset (sortVersions vs) = mset vs \<and>
   newestFirst (sortVersions vs) \<and>
   (distinct (map lastModified vs) \<longrightarrow> strictlyNewestFirst (sortVersions vs)) \<and>
   (listFileVersionsAsync this now fileName userContext st = Inr result \<longrightarrow> newestFirst result) \<and>
   \<not> isl (listFileVersionsAsync this now fileName userContext st)"
proof (intro conjI impI)
  show "listFileVersionsAsync this now fileName userContext st =
     (case find (\<lambda>b. versionsIn st now fileName b \<noteq> []) (readBuckets this userContext) of
        None \<Rightarrow> Inr []
      | Some b \<Rightarrow> Inr (sortVersions (versionsIn st now fileName b)))"
    by (simp add: listFileVersionsAsync_def versionsLoop_find)
  show "versionsIn st now fileName bucket =
     (if rejects st (ListObjects bucket fileName) then []
      else map (\<lambda>e. toVersion now (item e)) (filter (named fileName) (buckets st bucket)))"
    by (rule versionsIn_exact)
  show "mset (sortVersions vs) = mset vs" by (rule mset_sortVersions)
  show "newestFirst (sortVersions vs)" by (rule newestFirst_sortVersions)
  show "\<not> isl (listFileVersionsAsync this now fileName userContext st)"
    by (simp add: listFileVersionsAsync_def versionsLoop_find split: option.splits)
next
  assume "distinct (map lastModified vs)"
  then show "strictlyNewestFirst (sortVersions vs)"
    by (intro strictly_if_distinct newestFirst_sortVersions distinct_times_sortVersions)
next
  assume "listFileVersionsAsync this now fileName userContext st = Inr result"
  then have "result = [] \<or> (\<exists>vs. result = sortVersions vs)"
    by (auto simp: listFileVersionsAsync_def versionsLoop_find split: option.splits)
  then show "newestFirst result"
    using newestFirst_sortVersions by (auto simp: newestFirst_def)
qed

text \<open>Runs: a contributor gets the three versions of the working bucket, newest first,
  without the file of the longer name; an administrator gets the version of the stable
  bucket only.\<close>

theorem version_list_newest_first_witness:
  "map_sum id (map versionId)
     (listFileVersionsAsync exampleService 0 ''report.pdf'' contributor
        (storeOf threeVersions [entry ''report.pdf'' (Some ''s1'') 99 ''s'' []] noFaults))
     = Inr [''v3'', ''v2'', ''v1''] \<and>
   map_sum id (map versionId)
     (listFileVersionsAsync exampleService 0 ''report.pdf'' admin
        (storeOf threeVersions [entry ''report.pdf'' (Some ''s1'') 99 ''s'' []] noFaults))
     = Inr [''s1''] \<and>
   distinct (map lastModified
     (versionsIn (storeOf threeVersions [entry ''report.pdf'' (Some ''s1'') 99 ''s'' []] noFaults) 0 ''report.pdf''
        ''calcpad-working'')) \<and>
   strictlyNewestFirst (sortVersions
     (versionsIn (storeOf threeVersions [entry ''report.pdf'' (Some ''s1'') 99 ''s'' []] noFaults) 0 ''report.pdf''
        ''calcpad-working'')) \<and>
   newestFirst (sortVersions
     (versionsIn (storeOf threeVersions [entry ''report.pdf'' (Some ''s1'') 99 ''s'' []] noFaults) 0 ''report.pdf''
        ''calcpad-working''))"
proof -
  let ?st = "storeOf threeVersions [entry ''report.pdf'' (Some ''s1'') 99 ''s'' []] noFaults"
  let ?vs = "versionsIn ?st 0 ''report.pdf'' ''calcpad-working''"
  let ?ss = "versionsIn ?st 0 ''report.pdf'' ''calcpad-stable''"
  note run = version_list_newest_first [of exampleService 0 "''report.pdf''" _ ?st "''calcpad-working''" ?vs
      "sortVersions ?vs"]
  have w: "?vs = [\<lparr>versionId = ''v1'', lastModified = 10, size_v = 1, etag = ''e'', isLatest = True\<rparr>,
                  \<lparr>versionId = ''v3'', lastModified = 30, size_v = 3, etag = ''e'', isLatest = True\<rparr>,
                  \<lparr>versionId = ''v2'', lastModified = 20, size_v = 2, etag = ''e'', isLatest = True\<rparr>]"
    by (simp add: versionsIn_exact storeOf_def noFaults_def threeVersions_def named_def entry_def toVersion_def)
  have s: "?ss = [\<lparr>versionId = ''s1'', lastModified = 99, size_v = 1, etag = ''e'', isLatest = True\<rparr>]"
    by (simp add: versionsIn_exact storeOf_def noFaults_def named_def entry_def toVersion_def)
  have d: "distinct (map lastModified ?vs)"
    by (simp only: w) simp
  have rc: "readBuckets exampleService contributor = [''calcpad-working'']"
    by (simp add: readBuckets_def getBucketName_def exampleService_def constructor_def contributor_def)
  have ra: "readBuckets exampleService admin = [''calcpad-stable'', ''calcpad-working'']"
    by (simp add: readBuckets_def getBucketName_def exampleService_def constructor_def admin_def)
  from run [of contributor] have "listFileVersionsAsync exampleService 0 ''report.pdf'' contributor ?st
      = (case find (\<lambda>b. versionsIn ?st 0 ''report.pdf'' b \<noteq> []) (readBuckets exampleService contributor) of
           None \<Rightarrow> Inr [] | Some b \<Rightarrow> Inr (sortVersions (versionsIn ?st 0 ''report.pdf'' b)))"
    by (rule conjunct1)
  then have lc: "listFileVersionsAsync exampleService 0 ''report.pdf'' contributor ?st = Inr (sortVersions ?vs)"
    by (simp add: rc w)
  then have c: "map_sum id (map versionId) (listFileVersionsAsync exampleService 0 ''report.pdf'' contributor ?st)
      = Inr [''v3'', ''v2'', ''v1'']"
    by (simp only: w) (simp add: sortVersions_def)
  from run [of admin] have "listFileVersionsAsync exampleService 0 ''report.pdf'' admin ?st
      = (case find (\<lambda>b. versionsIn ?st 0 ''report.pdf'' b \<noteq> []) (readBuckets exampleService admin) of
           None \<Rightarrow> Inr [] | Some b \<Rightarrow> Inr (sortVersions (versionsIn ?st 0 ''report.pdf'' b)))"
    by (rule conjunct1)
  then have "listFileVersionsAsync exampleService 0 ''report.pdf'' admin ?st = Inr (sortVersions ?ss)"
    by (simp add: ra s)
  then have a: "map_sum id (map versionId) (listFileVersionsAsync exampleService 0 ''report.pdf'' admin ?st)
      = Inr [''s1'']"
    by (simp only: s) (simp add: sortVersions_def)
  from run [of contributor] d lc c a show ?thesis by blast
qed

text \<open>Claim C6 as stated fails: two versions with the same last-modified time are
  returned next to each other, and the list is not strictly descending.\<close>

theorem version_list_counterexample:
  "listFileVersionsAsync exampleService 0 ''report.pdf'' contributor
     (storeOf [entry ''report.pdf'' (Some ''v1'') 10 ''a'' [], entry ''report.pdf'' (Some ''v2'') 10 ''b'' []] [] noFaults)
     = Inr [\<lparr>versionId = ''v1'', lastModified = 10, size_v = 1, etag = ''e'', isLatest = True\<rparr>,
            \<lparr>versionId = ''v2'', lastModified = 10, size_v = 1, etag = ''e'', isLatest = True\<rparr>] \<and>
   \<not> strictlyNewestFirst
        [\<lparr>versionId = ''v1'', lastModified = 10, size_v = 1, etag = ''e'', isLatest = True\<rparr>,
         \<lparr>versionId = ''v2'', lastModified = 10, size_v = 1, etag = ''e'', isLatest = True\<rparr>]"
  by (simp add: listFileVersionsAsync_def readBuckets_def getBucketName_def exampleService_def constructor_def
      contributor_def storeOf_def noFaults_def listObjects_def hasPrefix_def entry_def collectVersions_def
      toVersion_def sortVersions_def strictlyNewestFirst_def Let_def)

section \<open>Writes: what the caller sees of a backend error\<close>

lemma setFileTagsAsync_eq:
  "setFileTagsAsync this fileName tags userContext st =
     (Inr (fst (setObjectTagging st (getBucketName this userContext) fileName (encodeTags tags)) = Inr ()),
      snd (setObjectTagging st (getBucketName this userContext) fileName (encodeTags tags)))"
  by (cases "setObjectTagging st (getBucketName this userContext) fileName (encodeTags tags)")
     (auto simp: setFileTagsAsync_def split: sum.splits)

lemma deleteFileTagsAsync_eq:
  "deleteFileTagsAsync this fileName userContext st =
     (Inr (fst (setObjectTagging st (getBucketName this userContext) fileName []) = Inr ()),
      snd (setObjectTagging st (getBucketName this userContext) fileName []))"
  by (cases "setObjectTagging st (getBucketName this userContext) fileName []")
     (auto simp: deleteFileTagsAsync_def split: sum.splits)

lemma upload_put_fails:
  "putObject st (getBucketName this userContext) fileName stream
      (uploadMetaData userContext now contentType metadata) = (Inl e, st') \<Longrightarrow>
   uploadFileAsync this now fileName stream userContext contentType tags metadata st = (Inl e, st')"
  by (simp add: uploadFileAsync_def)

lemma upload_tagging_fails:
  "putObject st (getBucketName this userContext) fileName stream
      (uploadMetaData userContext now contentType metadata) = (Inr (), st') \<Longrightarrow>
   ts \<noteq> [] \<Longrightarrow>
   setObjectTagging st' (getBucketName this userContext) fileName (encodeTags ts) = (Inl e, st'') \<Longrightarrow>
   uploadFileAsync this now fileName stream userContext contentType (Some ts) metadata st = (Inl e, st'')"
  by (simp add: uploadFileAsync_def)

lemma upload_succeeds:
  "putObject st (getBucketName this userContext) fileName stream
      (uploadMetaData userContext now contentType metadata) = (Inr (), st') \<Longrightarrow>
   (case tags of None \<Rightarrow> st'' = st' | Some ts \<Rightarrow>
      if ts = [] then st'' = st'
      else setObjectTagging st' (getBucketName this userContext) fileName (encodeTags ts) = (Inr (), st'')) \<Longrightarrow>
   uploadFileAsync this now fileName stream userContext contentType tags metadata st = (Inr fileName, st'')"
  by (auto simp: uploadFileAsync_def split: option.splits if_splits)

text \<open>
  Claim C7, as amended. \<^verbatim>\<open>uploadFileAsync\<close> has no handler: the error of the put, or of
  the tag write that follows a successful put, rejects the upload with that very error,
  and nothing is retried. \<^verbatim>\<open>setFileTagsAsync\<close> and \<^verbatim>\<open>deleteFileTagsAsync\<close> make one
  call to the store and never fail: they catch the error of the call and return
  \<open>False\<close>, leaving the store as it was, and return \<open>True\<close> when the call succeeded.
  The claim says that all three propagate the error; the two tag writes swallow it, and
  their \<open>False\<close> is the same for a missing object and for any other rejection.
\<close>

theorem writes_report_backend_errors:
  "(putObject st (getBucketName this userContext) fileName stream
      (uploadMetaData userContext now contentType metadata) = (Inl e, st') \<longrightarrow>
    uploadFileAsync this now fileName stream userContext contentType tags metadata st = (Inl e, st')) \<and>
   (putObject st (getBucketName this userContext) fileName stream
      (uploadMetaData userContext now contentType metadata) = (Inr (), st') \<longrightarrow>
    ts \<noteq> [] \<longrightarrow>
    setObjectTagging st' (getBucketName this userContext) fileName (encodeTags ts) = (Inl e, st'') \<longrightarrow>
    uploadFileAsync this now fileName stream userContext contentType (Some ts) metadata st = (Inl e, st'')) \<and>
   setFileTagsAsync this fileName newTags userContext st =
     (Inr (fst (setObjectTagging st (getBucketName this userContext) fileName (encodeTags newTags)) = Inr ()),
      snd (setObjectTagging st (getBucketName this userContext) fileName (encodeTags newTags))) \<and>
   deleteFileTagsAsync this fileName userContext st =
     (Inr (fst (setObjectTagging st (getBucketName this userContext) fileName []) = Inr ()),
      snd (setObjectTagging st (getBucketName this userContext) fileName [])) \<and>
   (fst (setObjectTagging st (getBucketName this userContext) fileName (encodeTags newTags)) = Inl e \<longrightarrow>
    setFileTagsAsync this fileName newTags userContext st = (Inr False, st)) \<and>
   (fst (setObjectTagging st (getBucketName this userContext) fileName []) = Inl e \<longrightarrow>
    deleteFileTagsAsync this fileName userContext st = (Inr False, st))"
proof -
  have unchanged: "snd (setObjectTagging st b k t) = st" if "fst (setObjectTagging st b k t) = Inl e" for b k t
    using that by (auto simp: setObjectTagging_def split: if_splits option.splits)
  show ?thesis
    by (intro conjI impI upload_put_fails upload_tagging_fails)
       (simp_all add: setFileTagsAsync_eq deleteFileTagsAsync_eq unchanged)
qed

text \<open>Runs: a store that rejects everything, and a store that accepts the put and
  rejects the tag write.\<close>

theorem writes_report_backend_errors_witness:
  "uploadFileAsync exampleService ''2024-05-01T10:00:00.000Z'' ''report.pdf'' ''bytes'' contributor
       (Some ''application/pdf'') (Some [''Draft'']) None (storeOf [] [] allDown)
     = (Inl BackendFailure, storeOf [] [] allDown) \<and>
   fst (uploadFileAsync exampleService ''2024-05-01T10:00:00.000Z'' ''report.pdf'' ''bytes'' contributor
       (Some ''application/pdf'') (Some [''Draft'']) None (storeOf [] [] tagsDown))
     = Inl BackendFailure \<and>
   setFileTagsAsync exampleService ''report.pdf'' [''Draft''] contributor (storeOf [] [] allDown)
     = (Inr False, storeOf [] [] allDown) \<and>
   deleteFileTagsAsync exampleService ''report.pdf'' contributor (storeOf [] [] allDown)
     = (Inr False, storeOf [] [] allDown)"
proof -
  let ?now = "''2024-05-01T10:00:00.000Z''"
  let ?md = "uploadMetaData contributor ?now (Some ''application/pdf'') None"
  let ?b = "getBucketName exampleService contributor"
  let ?down = "storeOf [] [] allDown"
  let ?tag = "storeOf [] [] tagsDown"
  let ?put = "snd (putObject ?tag ?b ''report.pdf'' ''bytes'' ?md)"
  have b: "?b = ''calcpad-working''"
    by (simp add: getBucketName_def exampleService_def constructor_def contributor_def)
  have p1: "putObject ?down ?b ''report.pdf'' ''bytes'' ?md = (Inl BackendFailure, ?down)"
    by (simp add: putObject_def storeOf_def noFaults_def allDown_def)
  have p2: "putObject ?tag ?b ''report.pdf'' ''bytes'' ?md = (Inr (), ?put)"
    by (simp add: putObject_def storeOf_def noFaults_def tagsDown_def)
  have t2: "setObjectTagging ?put ?b ''report.pdf'' (encodeTags [''Draft'']) = (Inl BackendFailure, ?put)"
    by (simp add: setObjectTagging_def putObject_def setBucket_def storeOf_def noFaults_def tagsDown_def)
  have n: "[''Draft''] \<noteq> []" by simp
  have s1: "fst (setObjectTagging ?down ?b ''report.pdf'' (encodeTags [''Draft''])) = Inl BackendFailure"
    by (simp add: setObjectTagging_def storeOf_def noFaults_def allDown_def)
  have s2: "fst (setObjectTagging ?down ?b ''report.pdf'' []) = Inl BackendFailure"
    by (simp add: setObjectTagging_def storeOf_def noFaults_def allDown_def)
  from writes_report_backend_errors [of ?down exampleService contributor "''report.pdf''" "''bytes''" ?now
      "Some ''application/pdf''" None BackendFailure ?down "Some [''Draft'']" "[''Draft'']" ?down "[''Draft'']"] p1 s1 s2
  have 1: "uploadFileAsync exampleService ?now ''report.pdf'' ''bytes'' contributor
       (Some ''application/pdf'') (Some [''Draft'']) None ?down = (Inl BackendFailure, ?down)
     \<and> setFileTagsAsync exampleService ''report.pdf'' [''Draft''] contributor ?down = (Inr False, ?down)
     \<and> deleteFileTagsAsync exampleService ''report.pdf'' contributor ?down = (Inr False, ?down)"
    by blast
  from writes_report_backend_errors [of ?tag exampleService contributor "''report.pdf''" "''bytes''" ?now
      "Some ''application/pdf''" None BackendFailure ?put "Some [''Draft'']" "[''Draft'']" ?put "[''Draft'']"] p2 n t2
  have 2: "uploadFileAsync exampleService ?now ''report.pdf'' ''bytes'' contributor
       (Some ''application/pdf'') (Some [''Draft'']) None ?tag = (Inl BackendFailure, ?put)"
    by blast
  from 1 2 show ?thesis by simp
qed

text \<open>Claim C7 as stated fails for the tag writes: the store rejects the call with
  \<open>BackendFailure\<close> and the method returns \<open>False\<close> instead of failing with it; it
  returns the same \<open>False\<close> when the object does not exist.\<close>

theorem writes_report_backend_errors_counterexample:
  "fst (setObjectTagging (storeOf [entry ''report.pdf'' None 5 ''x'' []] [] allDown)
          ''calcpad-working'' ''report.pdf'' (encodeTags [''Draft''])) = Inl BackendFailure \<and>
   fst (setFileTagsAsync exampleService ''report.pdf'' [''Draft''] contributor
          (storeOf [entry ''report.pdf'' None 5 ''x'' []] [] allDown)) = Inr False \<and>
   fst (setFileTagsAsync exampleService ''report.pdf'' [''Draft''] contributor
          (storeOf [entry ''report.pdf'' None 5 ''x'' []] [] allDown)) \<noteq> Inl BackendFailure \<and>
   fst (deleteFileTagsAsync exampleService ''report.pdf'' contributor
          (storeOf [entry ''report.pdf'' None 5 ''x'' []] [] allDown)) = Inr False \<and>
   fst (setObjectTagging (storeOf [] [] noFaults)
          ''calcpad-working'' ''report.pdf'' (encodeTags [''Draft''])) = Inl NoSuchKey \<and>
   fst (setFileTagsAsync exampleService ''report.pdf'' [''Draft''] contributor (storeOf [] [] noFaults)) = Inr False"
  by (simp add: setFileTagsAsync_def deleteFileTagsAsync_def getBucketName_def exampleService_def
      constructor_def contributor_def setObjectTagging_def storeOf_def allDown_def noFaults_def Let_def)

section \<open>Writes go to the bucket of the caller's role\<close>

lemma spread_lookup:
  "distinct (map fst extra) \<Longrightarrow>
   map_of (spread base extra) k = (case map_of extra k of Some v \<Rightarrow> Some v | None \<Rightarrow> map_of base k)"
proof (induction extra arbitrary: base)
  case Nil
  show ?case by (simp add: spread_def)
next
  case (Cons p ps)
  obtain k' v' where p: "p = (k', v')" by (cases p)
  from Cons.prems p have d: "distinct (map fst ps)" and fresh: "map_of ps k' = None"
    by (auto simp: map_of_eq_None_iff)
  have "map_of (spread base (p # ps)) k = map_of (spread (AList.update k' v' base) ps) k"
    by (simp add: spread_def p)
  also have "\<dots> = (case map_of ps k of Some v \<Rightarrow> Some v | None \<Rightarrow> map_of (AList.update k' v' base) k)"
    by (rule Cons.IH [OF d])
  also have "\<dots> = (case map_of (p # ps) k of Some v \<Rightarrow> Some v | None \<Rightarrow> map_of base k)"
    using fresh by (auto simp: p update_conv' split: option.splits)
  finally show ?case .
qed

lemma find_put:
  "named k x \<Longrightarrow> find (named k) (filter (\<lambda>e. \<not> named k e) es @ [x]) = Some x"
  by (induction es) auto

lemma putObject_stores:
  assumes "putObject st b k stream md = (Inr (), st')"
  shows "\<exists>e. find (named k) (buckets st' b) = Some e \<and> body e = stream \<and> metaData e = md \<and> tagging e = []"
proof -
  let ?new = "\<lparr>item = \<lparr>obj_name = Some k, obj_size = Some (length stream), obj_etag = None,
                         obj_lastModified = None, obj_versionId = None, obj_isLatest = None\<rparr>,
               body = stream, metaData = md, tagging = []\<rparr>"
  have "named k ?new" by (simp add: named_def)
  then have "find (named k) (filter (\<lambda>e. \<not> named k e) (buckets st b) @ [?new]) = Some ?new"
    by (rule find_put)
  moreover from assms have "buckets st' b = filter (\<lambda>e. \<not> named k e) (buckets st b) @ [?new]"
    by (auto simp: putObject_def setBucket_def split: if_splits)
  ultimately show ?thesis by simp
qed

lemma setObjectTagging_keeps:
  "setObjectTagging st b k t = (r, st') \<Longrightarrow> find (named k) (buckets st b) = Some e \<Longrightarrow>
   \<exists>e'. find (named k) (buckets st' b) = Some e' \<and> body e' = body e \<and> metaData e' = metaData e"
  by (auto simp: setObjectTagging_def setBucket_def find_retag split: if_splits)

lemma setObjectTagging_stores:
  "setObjectTagging st b k t = (Inr (), st') \<Longrightarrow>
   \<exists>e. find (named k) (buckets st' b) = Some e \<and> tagging e = t"
  by (auto simp: setObjectTagging_def setBucket_def find_retag split: if_splits option.splits)

lemma frame:
  "b' \<noteq> b \<Longrightarrow> buckets (snd (putObject st b k stream md)) b' = buckets st b'"
  "b' \<noteq> b \<Longrightarrow> buckets (snd (setObjectTagging st b k t)) b' = buckets st b'"
  "rejects (snd (putObject st b k stream md)) = rejects st"
  "rejects (snd (setObjectTagging st b k t)) = rejects st"
  by (auto simp: putObject_def setObjectTagging_def setBucket_def split: option.splits)

lemma upload_stores:
  assumes "fst (uploadFileAsync this now fileName stream userContext contentType tags metadata st) = Inr r"
  shows "\<exists>e. find (named fileName)
               (buckets (snd (uploadFileAsync this now fileName stream userContext contentType tags metadata st))
                  (getBucketName this userContext)) = Some e \<and>
             body e = stream \<and> metaData e = uploadMetaData userContext now contentType metadata"
proof -
  let ?b = "getBucketName this userContext"
  let ?md = "uploadMetaData userContext now contentType metadata"
  obtain r1 st1 where put: "putObject st ?b fileName stream ?md = (r1, st1)"
    by (cases "putObject st ?b fileName stream ?md")
  with assms have r1: "r1 = Inr ()" by (cases r1) (simp_all add: uploadFileAsync_def)
  from putObject_stores [OF put [unfolded r1]]
  obtain e where e: "find (named fileName) (buckets st1 ?b) = Some e" "body e = stream" "metaData e = ?md"
    by blast
  show ?thesis
  proof (cases "\<exists>ts. tags = Some ts \<and> ts \<noteq> []")
    case False
    then have "snd (uploadFileAsync this now fileName stream userContext contentType tags metadata st) = st1"
      using put r1 by (auto simp: uploadFileAsync_def split: option.splits)
    with e show ?thesis by simp
  next
    case True
    then obtain ts where ts: "tags = Some ts" "ts \<noteq> []" by blast
    obtain r2 st2 where tag: "setObjectTagging st1 ?b fileName (encodeTags ts) = (r2, st2)"
      by (cases "setObjectTagging st1 ?b fileName (encodeTags ts)")
    then have "snd (uploadFileAsync this now fileName stream userContext contentType tags metadata st) = st2"
      using put r1 ts by (auto simp: uploadFileAsync_def split: sum.splits)
    with setObjectTagging_keeps [OF tag e(1)] e show ?thesis by auto
  qed
qed

text \<open>
  Claim C8. The two bucket names are the configured base name followed by
  \<^verbatim>\<open>-working\<close> and \<^verbatim>\<open>-stable\<close>, and they differ. The bucket of a caller is the
  working bucket for the roles Viewer and Contributor (value at most 2) and the stable
  bucket for Admin (value 3); it depends on the role alone. Upload, set-tags and
  delete-tags leave every other bucket as it was, and when they succeed the caller's
  bucket holds the uploaded bytes, the encoded tags, or the empty tag mapping.
\<close>

theorem writes_use_primary_bucket:
  "workingBucket (constructor config) = bucketName config @ ''-working'' \<and>
   stableBucket (constructor config) = bucketName config @ ''-stable'' \<and>
   workingBucket (constructor config) \<noteq> stableBucket (constructor config) \<and>
   (role userContext = Viewer \<or> role userContext = Contributor \<longrightarrow>
      role_value (role userContext) \<le> 2 \<and>
      getBucketName (constructor config) userContext = bucketName config @ ''-working'') \<and>
   (role userContext = Admin \<longrightarrow>
      role_value (role userContext) = 3 \<and>
      getBucketName (constructor config) userContext = bucketName config @ ''-stable'') \<and>
   (role otherContext = role userContext \<longrightarrow> getBucketName this otherContext = getBucketName this userContext) \<and>
   (bucket \<noteq> getBucketName this userContext \<longrightarrow>
      buckets (snd (uploadFileAsync this now fileName stream userContext contentType tags metadata st)) bucket
        = buckets st bucket \<and>
      buckets (snd (setFileTagsAsync this fileName newTags userContext st)) bucket = buckets st bucket \<and>
      buckets (snd (deleteFileTagsAsync this fileName userContext st)) bucket = buckets st bucket) \<and>
   (fst (uploadFileAsync this now fileName stream userContext contentType tags metadata st) = Inr r \<longrightarrow>
      (\<exists>e. find (named fileName)
              (buckets (snd (uploadFileAsync this now fileName stream userContext contentType tags metadata st))
                 (getBucketName this userContext)) = Some e \<and> body e = stream)) \<and>
   (fst (setFileTagsAsync this fileName newTags userContext st) = Inr True \<longrightarrow>
      (\<exists>e. find (named fileName)
              (buckets (snd (setFileTagsAsync this fileName newTags userContext st))
                 (getBucketName this userContext)) = Some e \<and> tagging e = encodeTags newTags)) \<and>
   (fst (deleteFileTagsAsync this fileName userContext st) = Inr True \<longrightarrow>
      (\<exists>e. find (named fileName)
              (buckets (snd (deleteFileTagsAsync this fileName userContext st))
                 (getBucketName this userContext)) = Some e \<and> tagging e = []))"
proof (intro conjI impI)
  show "workingBucket (constructor config) = bucketName config @ ''-working''"
    and "stableBucket (constructor config) = bucketName config @ ''-stable''"
    and "workingBucket (constructor config) \<noteq> stableBucket (constructor config)"
    by (simp_all add: constructor_def)
next
  assume "role userContext = Viewer \<or> role userContext = Contributor"
  then show "role_value (role userContext) \<le> 2"
    and "getBucketName (constructor config) userContext = bucketName config @ ''-working''"
    by (auto simp: getBucketName_def constructor_def)
next
  assume "role userContext = Admin"
  then show "role_value (role userContext) = 3"
    and "getBucketName (constructor config) userContext = bucketName config @ ''-stable''"
    by (simp_all add: getBucketName_def constructor_def)
next
  assume "role otherContext = role userContext"
  then show "getBucketName this otherContext = getBucketName this userContext"
    by (simp add: getBucketName_def)
next
  assume other: "bucket \<noteq> getBucketName this userContext"
  show "buckets (snd (uploadFileAsync this now fileName stream userContext contentType tags metadata st)) bucket
        = buckets st bucket"
    using frame(1,2) [OF other]
    by (auto simp: uploadFileAsync_def Let_def split: prod.splits sum.splits option.splits)
       (metis snd_conv)+
  show "buckets (snd (setFileTagsAsync this fileName newTags userContext st)) bucket = buckets st bucket"
    using frame(2) [OF other] by (simp add: setFileTagsAsync_eq)
  show "buckets (snd (deleteFileTagsAsync this fileName userContext st)) bucket = buckets st bucket"
    using frame(2) [OF other] by (simp add: deleteFileTagsAsync_eq)
next
  assume "fst (uploadFileAsync this now fileName stream userContext contentType tags metadata st) = Inr r"
  from upload_stores [OF this]
  show "\<exists>e. find (named fileName)
              (buckets (snd (uploadFileAsync this now fileName stream userContext contentType tags metadata st))
                 (getBucketName this userContext)) = Some e \<and> body e = stream"
    by blast
next
  assume "fst (setFileTagsAsync this fileName newTags userContext st) = Inr True"
  then have "setObjectTagging st (getBucketName this userContext) fileName (encodeTags newTags)
      = (Inr (), snd (setFileTagsAsync this fileName newTags userContext st))"
    by (simp add: setFileTagsAsync_eq prod_eq_iff)
  from setObjectTagging_stores [OF this]
  show "\<exists>e. find (named fileName)
              (buckets (snd (setFileTagsAsync this fileName newTags userContext st))
                 (getBucketName this userContext)) = Some e \<and> tagging e = encodeTags newTags" .
next
  assume "fst (deleteFileTagsAsync this fileName userContext st) = Inr True"
  then have "setObjectTagging st (getBucketName this userContext) fileName []
      = (Inr (), snd (deleteFileTagsAsync this fileName userContext st))"
    by (simp add: deleteFileTagsAsync_eq prod_eq_iff)
  from setObjectTagging_stores [OF this]
  show "\<exists>e. find (named fileName)
              (buckets (snd (deleteFileTagsAsync this fileName userContext st))
                 (getBucketName this userContext)) = Some e \<and> tagging e = []" .
qed

text \<open>Runs: a contributor uploads, an administrator sets and deletes tags.\<close>

theorem writes_use_primary_bucket_witness:
  "getBucketName exampleService contributor = ''calcpad-working'' \<and>
   getBucketName exampleService (contributor\<lparr>userId := ''7'', username := ''cleo''\<rparr>) = ''calcpad-working'' \<and>
   getBucketName exampleService admin = ''calcpad-stable'' \<and>
   fst (uploadFileAsync exampleService ''2024-05-01T10:00:00.000Z'' ''report.pdf'' ''bytes'' contributor
          (Some ''application/pdf'') (Some [''Draft'']) None releasedOnly) = Inr ''report.pdf'' \<and>
   buckets (snd (uploadFileAsync exampleService ''2024-05-01T10:00:00.000Z'' ''report.pdf'' ''bytes'' contributor
          (Some ''application/pdf'') (Some [''Draft'']) None releasedOnly)) ''calcpad-stable''
     = buckets releasedOnly ''calcpad-stable'' \<and>
   fst (setFileTagsAsync exampleService ''released.pdf'' [''Final''] admin releasedOnly) = Inr True \<and>
   buckets (snd (setFileTagsAsync exampleService ''released.pdf'' [''Final''] admin releasedOnly)) ''calcpad-working''
     = buckets releasedOnly ''calcpad-working'' \<and>
   fst (deleteFileTagsAsync exampleService ''released.pdf'' admin releasedOnly) = Inr True \<and>
   buckets (snd (deleteFileTagsAsync exampleService ''released.pdf'' admin releasedOnly)) ''calcpad-working''
     = buckets releasedOnly ''calcpad-working''"
proof -
  let ?cfg = "\<lparr>endpoint = ''localhost:9000'', accessKey = ''minio'', secretKey = ''secret'',
               bucketName = ''calcpad'', useSSL = False\<rparr>"
  let ?now = "''2024-05-01T10:00:00.000Z''"
  have svc: "constructor ?cfg = exampleService" by (simp add: exampleService_def)
  have rc: "role contributor = Viewer \<or> role contributor = Contributor" by (simp add: contributor_def)
  have ra: "role admin = Admin" by (simp add: admin_def)
  have same: "role (contributor\<lparr>userId := ''7'', username := ''cleo''\<rparr>) = role contributor" by simp
  have bc: "getBucketName exampleService contributor = ''calcpad-working''"
    by (simp add: getBucketName_def exampleService_def constructor_def contributor_def)
  have ba: "getBucketName exampleService admin = ''calcpad-stable''"
    by (simp add: getBucketName_def exampleService_def constructor_def admin_def)
  have oc: "''calcpad-stable'' \<noteq> getBucketName exampleService contributor" by (simp add: bc)
  have oa: "''calcpad-working'' \<noteq> getBucketName exampleService admin" by (simp add: ba)
  have up: "fst (uploadFileAsync exampleService ?now ''report.pdf'' ''bytes'' contributor
          (Some ''application/pdf'') (Some [''Draft'']) None releasedOnly) = Inr ''report.pdf''"
    by (simp add: uploadFileAsync_def bc Let_def putObject_def setObjectTagging_def setBucket_def named_def
        releasedOnly_def storeOf_def noFaults_def)
  have st: "fst (setFileTagsAsync exampleService ''released.pdf'' [''Final''] admin releasedOnly) = Inr True"
    by (simp add: setFileTagsAsync_def ba Let_def setObjectTagging_def setBucket_def named_def
        releasedOnly_def storeOf_def noFaults_def entry_def)
  have dt: "fst (deleteFileTagsAsync exampleService ''released.pdf'' admin releasedOnly) = Inr True"
    by (simp add: deleteFileTagsAsync_def ba Let_def setObjectTagging_def setBucket_def named_def
        releasedOnly_def storeOf_def noFaults_def entry_def)
  from writes_use_primary_bucket [of ?cfg contributor "contributor\<lparr>userId := ''7'', username := ''cleo''\<rparr>"
      exampleService "''calcpad-stable''" ?now
      "''report.pdf''" "''bytes''" "Some ''application/pdf''" "Some [''Draft'']" None releasedOnly "[''Draft'']"
      "''report.pdf''"] rc same oc up
  have 1: "buckets (snd (uploadFileAsync exampleService ?now ''report.pdf'' ''bytes'' contributor
          (Some ''application/pdf'') (Some [''Draft'']) None releasedOnly)) ''calcpad-stable''
       = buckets releasedOnly ''calcpad-stable''
     \<and> getBucketName exampleService (contributor\<lparr>userId := ''7'', username := ''cleo''\<rparr>)
       = getBucketName exampleService contributor"
    by blast
  from writes_use_primary_bucket [of ?cfg admin admin exampleService "''calcpad-working''" ?now
      "''released.pdf''" "''bytes''" "Some ''application/pdf''" None None releasedOnly "[''Final'']"
      "''released.pdf''"] ra oa st dt
  have 2: "buckets (snd (setFileTagsAsync exampleService ''released.pdf'' [''Final''] admin releasedOnly)) ''calcpad-working''
       = buckets releasedOnly ''calcpad-working''
     \<and> buckets (snd (deleteFileTagsAsync exampleService ''released.pdf'' admin releasedOnly)) ''calcpad-working''
       = buckets releasedOnly ''calcpad-working''"
    by blast
  from bc ba up st dt 1 2 show ?thesis by simp
qed

section \<open>The metadata of an upload\<close>

text \<open>
  Claim C10. Without caller metadata the stored metadata is the content type (or
  \<^verbatim>\<open>application/octet-stream\<close> when none is given), the caller's user name under
  \<^verbatim>\<open>created-by\<close> and the time of the upload under \<^verbatim>\<open>created-at\<close>. Caller metadata
  (an object, so its keys are distinct) is merged after these fields: for every key the
  caller supplies, and so for \<^verbatim>\<open>created-by\<close>, \<^verbatim>\<open>created-at\<close> and
  \<^verbatim>\<open>Content-Type\<close>, the stored value is the caller's; for a key the caller does not
  supply the system value stays. A successful upload stores exactly this metadata with
  the object in the caller's bucket.
\<close>

theorem caller_metadata_overrides_system_fields:
  "uploadMetaData userContext now contentType None =
     [(''Content-Type'', (case contentType of None \<Rightarrow> ''application/octet-stream''
                          | Some c \<Rightarrow> if c = [] then ''application/octet-stream'' else c)),
      (''created-by'', username userContext),
      (''created-at'', now)] \<and>
   (distinct (map fst extra) \<longrightarrow>
      map_of (uploadMetaData userContext now contentType (Some extra)) k =
        (case map_of extra k of
           Some v \<Rightarrow> Some v
         | None \<Rightarrow> map_of (uploadMetaData userContext now contentType None) k)) \<and>
   (distinct (map fst extra) \<longrightarrow> k \<in> {''created-by'', ''created-at'', ''Content-Type''} \<longrightarrow>
    map_of extra k = Some v \<longrightarrow>
      map_of (uploadMetaData userContext now contentType (Some extra)) k = Some v) \<and>
   (distinct (map fst extra) \<longrightarrow> map_of extra ''created-by'' = None \<longrightarrow>
      map_of (uploadMetaData userContext now contentType (Some extra)) ''created-by'' = Some (username userContext)) \<and>
   (distinct (map fst extra) \<longrightarrow> map_of extra ''created-at'' = None \<longrightarrow>
      map_of (uploadMetaData userContext now contentType (Some extra)) ''created-at'' = Some now) \<and>
   (distinct (map fst extra) \<longrightarrow> map_of extra ''Content-Type'' = None \<longrightarrow>
      map_of (uploadMetaData userContext now contentType (Some extra)) ''Content-Type'' =
        Some (case contentType of None \<Rightarrow> ''application/octet-stream''
              | Some c \<Rightarrow> if c = [] then ''application/octet-stream'' else c)) \<and>
   (fst (uploadFileAsync this now fileName stream userContext contentType tags metadata st) = Inr r \<longrightarrow>
      (\<exists>e. find (named fileName)
              (buckets (snd (uploadFileAsync this now fileName stream userContext contentType tags metadata st))
                 (getBucketName this userContext)) = Some e \<and>
            metaData e = uploadMetaData userContext now contentType metadata))"
proof -
  have none: "uploadMetaData userContext now contentType None =
     [(''Content-Type'', (case contentType of None \<Rightarrow> ''application/octet-stream''
                          | Some c \<Rightarrow> if c = [] then ''application/octet-stream'' else c)),
      (''created-by'', username userContext),
      (''created-at'', now)]"
    by (simp add: uploadMetaData_def spread_def)
  have look: "map_of (uploadMetaData userContext now contentType (Some extra)) key =
        (case map_of extra key of
           Some v \<Rightarrow> Some v
         | None \<Rightarrow> map_of (uploadMetaData userContext now contentType None) key)"
    if "distinct (map fst extra)" for key
    unfolding none using spread_lookup [OF that] by (simp add: uploadMetaData_def)
  show ?thesis
  proof (intro conjI impI)
    show "uploadMetaData userContext now contentType None =
     [(''Content-Type'', (case contentType of None \<Rightarrow> ''application/octet-stream''
                          | Some c \<Rightarrow> if c = [] then ''application/octet-stream'' else c)),
      (''created-by'', username userContext),
      (''created-at'', now)]" by (rule none)
  next
    assume "distinct (map fst extra)"
    then show "map_of (uploadMetaData userContext now contentType (Some extra)) k =
        (case map_of extra k of
           Some v \<Rightarrow> Some v
         | None \<Rightarrow> map_of (uploadMetaData userContext now contentType None) k)" by (rule look)
  next
    assume "distinct (map fst extra)" and "map_of extra k = Some v"
    then show "map_of (uploadMetaData userContext now contentType (Some extra)) k = Some v"
      by (simp add: look)
  next
    assume "distinct (map fst extra)" and "map_of extra ''created-by'' = None"
    then show "map_of (uploadMetaData userContext now contentType (Some extra)) ''created-by'' = Some (username userContext)"
      by (simp add: look none)
  next
    assume "distinct (map fst extra)" and "map_of extra ''created-at'' = None"
    then show "map_of (uploadMetaData userContext now contentType (Some extra)) ''created-at'' = Some now"
      by (simp add: look none)
  next
    assume "distinct (map fst extra)" and "map_of extra ''Content-Type'' = None"
    then show "map_of (uploadMetaData userContext now contentType (Some extra)) ''Content-Type'' =
        Some (case contentType of None \<Rightarrow> ''application/octet-stream''
              | Some c \<Rightarrow> if c = [] then ''application/octet-stream'' else c)"
      by (simp add: look none)
  next
    assume "fst (uploadFileAsync this now fileName stream userContext contentType tags metadata st) = Inr r"
    from upload_stores [OF this]
    show "\<exists>e. find (named fileName)
              (buckets (snd (uploadFileAsync this now fileName stream userContext contentType tags metadata st))
                 (getBucketName this userContext)) = Some e \<and>
            metaData e = uploadMetaData userContext now contentType metadata"
      by blast
  qed
qed

text \<open>A run: the caller overrides \<^verbatim>\<open>created-by\<close> and adds a category.\<close>

theorem caller_metadata_overrides_system_fields_witness:
  "map_of (uploadMetaData contributor ''2024-05-01T10:00:00.000Z'' (Some ''application/pdf'')
             (Some [(''category'', ''calc''), (''created-by'', ''mallory'')])) ''created-by'' = Some ''mallory'' \<and>
   map_of (uploadMetaData contributor ''2024-05-01T10:00:00.000Z'' (Some ''application/pdf'')
             (Some [(''category'', ''calc''), (''created-by'', ''mallory'')])) ''created-at''
     = Some ''2024-05-01T10:00:00.000Z'' \<and>
   map_of (uploadMetaData contributor ''2024-05-01T10:00:00.000Z'' (Some ''application/pdf'')
             (Some [(''category'', ''calc''), (''created-by'', ''mallory'')])) ''Content-Type''
     = Some ''application/pdf'' \<and>
   map_of (uploadMetaData contributor ''2024-05-01T10:00:00.000Z'' (Some ''application/pdf'')
             (Some [(''category'', ''calc'')])) ''created-by'' = Some ''carl'' \<and>
   fst (uploadFileAsync exampleService ''2024-05-01T10:00:00.000Z'' ''report.pdf'' ''bytes'' contributor
          (Some ''application/pdf'') None (Some [(''category'', ''calc''), (''created-by'', ''mallory'')])
          releasedOnly) = Inr ''report.pdf'' \<and>
   map metaData
     (buckets (snd (uploadFileAsync exampleService ''2024-05-01T10:00:00.000Z'' ''report.pdf'' ''bytes'' contributor
          (Some ''application/pdf'') None (Some [(''category'', ''calc''), (''created-by'', ''mallory'')])
          releasedOnly)) ''calcpad-working'')
     = [[(''Content-Type'', ''application/pdf''), (''created-by'', ''mallory''),
         (''created-at'', ''2024-05-01T10:00:00.000Z''), (''category'', ''calc'')]]"
proof -
  let ?now = "''2024-05-01T10:00:00.000Z''"
  let ?extra = "[(''category'', ''calc''), (''created-by'', ''mallory'')]"
  let ?plain = "[(''category'', ''calc'')]"
  have d: "distinct (map fst ?extra)" "distinct (map fst ?plain)" by simp_all
  have k: "''created-by'' \<in> {''created-by'', ''created-at'', ''Content-Type''}" by simp
  have by_caller: "map_of ?extra ''created-by'' = Some ''mallory''" by simp
  have absent: "map_of ?extra ''created-at'' = None" "map_of ?extra ''Content-Type'' = None"
    "map_of ?plain ''created-by'' = None" by simp_all
  have bc: "getBucketName exampleService contributor = ''calcpad-working''"
    by (simp add: getBucketName_def exampleService_def constructor_def contributor_def)
  have up: "fst (uploadFileAsync exampleService ?now ''report.pdf'' ''bytes'' contributor
          (Some ''application/pdf'') None (Some ?extra) releasedOnly) = Inr ''report.pdf''"
    by (simp add: uploadFileAsync_def bc Let_def putObject_def
        releasedOnly_def storeOf_def noFaults_def)
  have stored: "map metaData
     (buckets (snd (uploadFileAsync exampleService ?now ''report.pdf'' ''bytes'' contributor
          (Some ''application/pdf'') None (Some ?extra) releasedOnly)) ''calcpad-working'')
     = [[(''Content-Type'', ''application/pdf''), (''created-by'', ''mallory''),
         (''created-at'', ?now), (''category'', ''calc'')]]"
    by (simp add: uploadFileAsync_def bc Let_def putObject_def setBucket_def uploadMetaData_def spread_def
        releasedOnly_def storeOf_def noFaults_def)
  from caller_metadata_overrides_system_fields [of contributor ?now "Some ''application/pdf''" ?extra
      "''created-by''" "''mallory''" exampleService "''report.pdf''" "''bytes''" None "Some ?extra" releasedOnly
      "''report.pdf''"] d(1) k by_caller absent(1,2) up
  have 1: "map_of (uploadMetaData contributor ?now (Some ''application/pdf'') (Some ?extra)) ''created-by'' = Some ''mallory''
    \<and> map_of (uploadMetaData contributor ?now (Some ''application/pdf'') (Some ?extra)) ''created-at'' = Some ?now
    \<and> map_of (uploadMetaData contributor ?now (Some ''application/pdf'') (Some ?extra)) ''Content-Type''
        = Some (case Some ''application/pdf'' of None \<Rightarrow> ''application/octet-stream''
                | Some c \<Rightarrow> if c = [] then ''application/octet-stream'' else c)"
    by blast
  from caller_metadata_overrides_system_fields [of contributor ?now "Some ''application/pdf''" ?plain
      "''created-by''" "''mallory''" exampleService "''report.pdf''" "''bytes''" None "Some ?extra" releasedOnly
      "''report.pdf''"] d(2) absent(3)
  have 2: "map_of (uploadMetaData contributor ?now (Some ''application/pdf'') (Some ?plain)) ''created-by''
      = Some (username contributor)"
    by blast
  from 1 2 up stored show ?thesis by (simp add: contributor_def)
qed

end
